theory Spec2Isabelle
  imports Complex_Main "HOL-Library.AList" "HOL-Library.Log_Nat"
begin

section \<open>Food health rating: normalisation and scoring core of app.py\<close>

text \<open>
  A shallow embedding of the classes \<open>IngredientNormalizer\<close>, \<open>NutrientNormalizer\<close> and
  \<open>HealthScorer\<close> of \<open>food-health-rating-app/app.py\<close>.

  Conventions of the embedding:
  \<^item> A Python \<open>str\<close> is a \<open>string\<close>; a \<open>char\<close> stands for the code point of the same
    number, so the strings covered are those over code points 0 to 255.
  \<^item> A Python \<open>float\<close> is an IEEE 754 binary64 value (type \<open>fl\<close>): a finite value is
    the rational it denotes, every arithmetic result is rounded to the nearest double,
    ties to even, with overflow to an infinity and gradual underflow. The two zeros are
    one value: they compare equal and nothing here tells them apart.
  \<^item> In the scorer a Python \<open>int\<close> that meets a float (the constants 50, 10, 8, 15,
    12 and the ingredient score) is the double of the same value; all of them are
    below 100 in magnitude, where the conversion is exact. The ingredient score itself
    is computed on integers, as in the source.
  \<^item> An exception is a value of type \<open>exc\<close>; a computation that can raise returns
    \<open>exc + 'a\<close>, with \<open>Inl\<close> for the exception.
  \<^item> A \<open>dict\<close> is an association list in insertion order with distinct keys; storing
    under a key is \<open>AList.update\<close>, looking a key up is \<open>map_of\<close>.
  \<^item> A \<open>set\<close> of terms that is only iterated to find some member with a property is a
    list; the search is \<open>list_ex\<close>, which does not depend on the order.
  \<^item> Logging has no effect on results and is left out. The \<open>explanation\<close> text of a
    \<open>ScoreDriver\<close> is formatted prose and is left out of the record.
\<close>

subsection \<open>Characters and the string primitives used by the source\<close>

text \<open>\<open>str.isspace\<close> and the regular expression class \<open>\s\<close> on code points below 256.\<close>

definition is_space :: "char \<Rightarrow> bool" where
  "is_space c = (let n = (of_char c :: nat) in
     (9 \<le> n \<and> n \<le> 13) \<or> (28 \<le> n \<and> n \<le> 32) \<or> n = 133 \<or> n = 160)"

text \<open>The regular expression class \<open>\d\<close> on code points below 256.\<close>

definition is_digit :: "char \<Rightarrow> bool" where
  "is_digit c = (let n = (of_char c :: nat) in 48 \<le> n \<and> n \<le> 57)"

text \<open>Characters that \<open>str.lower\<close> changes, on code points below 256.\<close>

definition is_upper :: "char \<Rightarrow> bool" where
  "is_upper c = (let n = (of_char c :: nat) in
     (65 \<le> n \<and> n \<le> 90) \<or> (192 \<le> n \<and> n \<le> 222 \<and> n \<noteq> 215))"

definition lower_char :: "char \<Rightarrow> char" where
  "lower_char c = (if is_upper c then char_of ((of_char c :: nat) + 32) else c)"

text \<open>\<open>s.lower()\<close>\<close>

definition lower :: "string \<Rightarrow> string" where
  "lower s = map lower_char s"

text \<open>\<open>s.strip()\<close>\<close>

definition strip :: "string \<Rightarrow> string" where
  "strip s = rev (dropWhile is_space (rev (dropWhile is_space s)))"

text \<open>\<open>s.startswith(p)\<close>, used to match a literal at the current position.\<close>

definition starts_with :: "string \<Rightarrow> string \<Rightarrow> bool" where
  "starts_with p s = (take (length p) s = p)"

text \<open>The operator \<open>t in s\<close> on strings: \<open>t\<close> occurs in \<open>s\<close> as a contiguous substring.\<close>

fun substring_in :: "string \<Rightarrow> string \<Rightarrow> bool" where
  "substring_in t [] = (t = [])"
| "substring_in t (c # cs) = (starts_with t (c # cs) \<or> substring_in t cs)"

subsection \<open>IngredientNormalizer\<close>

definition HARMFUL_ADDITIVES :: "string list" where
  "HARMFUL_ADDITIVES =
     [''sodium nitrite'', ''sodium nitrate'', ''potassium nitrite'', ''potassium nitrate'',
      ''bha'', ''bht'', ''tbhq'', ''propyl gallate'',
      ''artificial colors'', ''red dye 40'', ''yellow 6'', ''blue 1'',
      ''high fructose corn syrup'', ''corn syrup solids'']"

definition ULTRA_PROCESSED_MARKERS :: "string list" where
  "ULTRA_PROCESSED_MARKERS =
     [''modified starch'', ''hydrolyzed protein'', ''isolated protein'',
      ''artificial flavors'', ''natural flavors'', ''flavor enhancer'',
      ''emulsifier'', ''stabilizer'', ''thickener'']"

definition BENEFICIAL_INGREDIENTS :: "string list" where
  "BENEFICIAL_INGREDIENTS =
     [''whole grain'', ''whole wheat'', ''oats'', ''quinoa'', ''brown rice'',
      ''fiber'', ''protein'', ''vitamins'', ''minerals'']"

text \<open>\<open>re.split(r'[,;]', s)\<close>: the pieces between separators, empty pieces included.\<close>

fun re_split :: "string \<Rightarrow> string list" where
  "re_split [] = [[]]"
| "re_split (c # cs) =
     (if c = CHR '','' \<or> c = CHR '';'' then [] # re_split cs
      else (case re_split cs of
              [] \<Rightarrow> [[c]]
            | w # ws \<Rightarrow> (c # w) # ws))"

text \<open>
  \<open>re.sub(r'\([^)]*\)', '', s)\<close>: scanning from the left, an opening parenthesis that
  has a closing one somewhere after it is deleted together with everything up to the
  first closing parenthesis; the scan goes on behind it.
\<close>

function remove_parens :: "string \<Rightarrow> string" where
  "remove_parens [] = []"
| "remove_parens (c # cs) =
     (if c = CHR ''('' \<and> CHR '')'' \<in> set cs
      then remove_parens (tl (dropWhile (\<lambda>x. x \<noteq> CHR '')'') cs))
      else c # remove_parens cs)"
  by pat_completeness auto
termination
proof (relation "measure length")
  fix c :: char and cs :: string
  have "length (tl (dropWhile (\<lambda>x. x \<noteq> CHR '')'') cs)) \<le> length cs"
    using length_dropWhile_le [of "\<lambda>x. x \<noteq> CHR '')''" cs] by simp
  then show "(tl (dropWhile (\<lambda>x. x \<noteq> CHR '')'') cs), c # cs) \<in> measure length"
    by simp
qed simp_all

text \<open>\<open>re.sub(r'\s+', ' ', s)\<close>: every maximal run of whitespace becomes one blank.\<close>

function collapse_ws :: "string \<Rightarrow> string" where
  "collapse_ws [] = []"
| "collapse_ws (c # cs) =
     (if is_space c then CHR '' '' # collapse_ws (dropWhile is_space cs)
      else c # collapse_ws cs)"
  by pat_completeness auto
termination
proof (relation "measure length")
  fix c :: char and cs :: string
  show "(dropWhile is_space cs, c # cs) \<in> measure length"
    using length_dropWhile_le [of is_space cs] by simp
qed simp_all

text \<open>
  \<open>normalize_ingredient_list\<close>. The argument is optional: \<open>None\<close> and the empty string
  are both falsy and return the empty list at once.
\<close>

definition normalize_ingredient_list :: "string option \<Rightarrow> string list" where
  "normalize_ingredient_list raw_ingredients =
     (case raw_ingredients of
        None \<Rightarrow> []
      | Some raw \<Rightarrow>
          if raw = [] then []
          else filter (\<lambda>ingredient. ingredient \<noteq> [] \<and> length ingredient > 1)
                 (map (\<lambda>ingredient. strip (collapse_ws (remove_parens (strip ingredient))))
                    (re_split (lower raw))))"

text \<open>The dictionary returned by \<open>classify_ingredients\<close> has four fixed keys.\<close>

record classification =
  harmful_additives :: "string list"
  ultra_processed_markers :: "string list"
  beneficial_ingredients :: "string list"
  other :: "string list"

text \<open>
  One inner loop of \<open>classify_ingredients\<close>: \<open>for term in TERMS: if term in
  ingredient_lower: ...; break\<close>. It finds out whether some term occurs.
\<close>

definition matches_any :: "string list \<Rightarrow> string \<Rightarrow> bool" where
  "matches_any terms ingredient_lower = list_ex (\<lambda>t. substring_in t ingredient_lower) terms"

text \<open>The body of the outer loop of \<open>classify_ingredients\<close>, for one ingredient.\<close>

definition classify_one :: "classification \<Rightarrow> string \<Rightarrow> classification" where
  "classify_one cl ingredient =
     (let ingredient_lower = lower ingredient in
      if matches_any HARMFUL_ADDITIVES ingredient_lower
      then cl\<lparr>harmful_additives := harmful_additives cl @ [ingredient]\<rparr>
      else if matches_any ULTRA_PROCESSED_MARKERS ingredient_lower
      then cl\<lparr>ultra_processed_markers := ultra_processed_markers cl @ [ingredient]\<rparr>
      else if matches_any BENEFICIAL_INGREDIENTS ingredient_lower
      then cl\<lparr>beneficial_ingredients := beneficial_ingredients cl @ [ingredient]\<rparr>
      else cl\<lparr>other := other cl @ [ingredient]\<rparr>)"

definition classify_ingredients :: "string list \<Rightarrow> classification" where
  "classify_ingredients ingredients =
     foldl classify_one
       \<lparr>harmful_additives = [], ultra_processed_markers = [],
        beneficial_ingredients = [], other = []\<rparr>
       ingredients"

subsection \<open>Python numbers\<close>

datatype exc = OverflowError | ZeroDivisionError | ValueError

datatype fl = Finite rat | PInf | NInf | NaN

text \<open>The power of two with an integer exponent.\<close>

definition pow2 :: "int \<Rightarrow> rat" where
  "pow2 k = (if k \<ge> 0 then of_int (push_bit (nat k) 1) else 1 / of_int (push_bit (nat (- k)) 1))"

text \<open>The binary exponent of a positive rational: the largest \<open>e\<close> with \<open>2^e \<le> a\<close>.\<close>

definition ilog2 :: "rat \<Rightarrow> int" where
  "ilog2 a = (case quotient_of a of (p, d) \<Rightarrow>
     (let k = bitlen p - bitlen d in if pow2 k \<le> a then k else k - 1))"

text \<open>Rounding to the nearest integer, a tie to the even one.\<close>

definition round_even :: "rat \<Rightarrow> int" where
  "round_even m = (let f = \<lfloor>m\<rfloor>; d = m - of_int f in
     if d < 1 / 2 then f else if d > 1 / 2 then f + 1 else if even f then f else f + 1)"

text \<open>
  Rounding a rational to binary64: 53 significant bits, the unit in the last place never
  below \<open>2^-1074\<close>, and an infinity when the rounded magnitude reaches \<open>2^1024\<close>.
\<close>

definition rnd :: "rat \<Rightarrow> fl" where
  "rnd q = (if q = 0 then Finite 0
     else (let a = \<bar>q\<bar>; u = max (ilog2 a - 52) (- 1074);
               r = of_int (round_even (a / pow2 u)) * pow2 u
           in if r \<ge> pow2 1024 then (if q > 0 then PInf else NInf)
              else Finite (if q > 0 then r else - r)))"

text \<open>The sign of a float that is not NaN, as -1, 0 or 1.\<close>

fun fl_sgn :: "fl \<Rightarrow> int" where
  "fl_sgn (Finite a) = (if a > 0 then 1 else if a < 0 then - 1 else 0)"
| "fl_sgn PInf = 1"
| "fl_sgn NInf = - 1"
| "fl_sgn NaN = 0"

text \<open>Unary minus, \<open>+\<close>, \<open>-\<close> and \<open>*\<close> on floats; none of them raises.\<close>

fun fl_neg :: "fl \<Rightarrow> fl" where
  "fl_neg (Finite a) = Finite (- a)"
| "fl_neg PInf = NInf"
| "fl_neg NInf = PInf"
| "fl_neg NaN = NaN"

fun fl_add :: "fl \<Rightarrow> fl \<Rightarrow> fl" where
  "fl_add (Finite a) (Finite b) = rnd (a + b)"
| "fl_add NaN y = NaN"
| "fl_add x NaN = NaN"
| "fl_add PInf NInf = NaN"
| "fl_add NInf PInf = NaN"
| "fl_add PInf y = PInf"
| "fl_add NInf y = NInf"
| "fl_add x PInf = PInf"
| "fl_add x NInf = NInf"

definition fl_sub :: "fl \<Rightarrow> fl \<Rightarrow> fl" where
  "fl_sub x y = fl_add x (fl_neg y)"

fun fl_mul :: "fl \<Rightarrow> fl \<Rightarrow> fl" where
  "fl_mul (Finite a) (Finite b) = rnd (a * b)"
| "fl_mul NaN y = NaN"
| "fl_mul x NaN = NaN"
| "fl_mul x y =
     (if fl_sgn x * fl_sgn y = 0 then NaN
      else if fl_sgn x * fl_sgn y > 0 then PInf else NInf)"

text \<open>
  The quotient of two floats for a divisor other than zero. Python never computes it
  for a zero divisor: \<open>/\<close> raises first.
\<close>

fun fl_quot :: "fl \<Rightarrow> fl \<Rightarrow> fl" where
  "fl_quot (Finite a) (Finite b) = rnd (a / b)"
| "fl_quot NaN y = NaN"
| "fl_quot x NaN = NaN"
| "fl_quot (Finite a) y = Finite 0"
| "fl_quot x (Finite b) = (if fl_sgn x * fl_sgn (Finite b) > 0 then PInf else NInf)"
| "fl_quot x y = NaN"

text \<open>\<open>x / y\<close> on floats.\<close>

definition py_truediv :: "fl \<Rightarrow> fl \<Rightarrow> exc + fl" where
  "py_truediv x y = (if y = Finite 0 then Inl ZeroDivisionError else Inr (fl_quot x y))"

text \<open>\<open>x < y\<close> and \<open>x <= y\<close> on floats; a comparison with NaN is false.\<close>

fun fl_less :: "fl \<Rightarrow> fl \<Rightarrow> bool" where
  "fl_less (Finite a) (Finite b) = (a < b)"
| "fl_less NaN y = False"
| "fl_less x NaN = False"
| "fl_less x NInf = False"
| "fl_less PInf y = False"
| "fl_less x y = True"

fun fl_le :: "fl \<Rightarrow> fl \<Rightarrow> bool" where
  "fl_le (Finite a) (Finite b) = (a \<le> b)"
| "fl_le NaN y = False"
| "fl_le x NaN = False"
| "fl_le NInf y = True"
| "fl_le x PInf = True"
| "fl_le x y = False"

text \<open>\<open>min(a, b)\<close> with two arguments: the first one unless the second is smaller.\<close>

definition py_min :: "fl \<Rightarrow> fl \<Rightarrow> fl" where
  "py_min a b = (if fl_less b a then b else a)"

text \<open>\<open>int(x)\<close> on a float: the fractional part is dropped; infinities and NaN raise.\<close>

definition trunc :: "rat \<Rightarrow> int" where
  "trunc x = (if x \<ge> 0 then \<lfloor>x\<rfloor> else \<lceil>x\<rceil>)"

fun py_int :: "fl \<Rightarrow> exc + int" where
  "py_int (Finite q) = Inr (trunc q)"
| "py_int PInf = Inl OverflowError"
| "py_int NInf = Inl OverflowError"
| "py_int NaN = Inl ValueError"

text \<open>A number that is an \<open>int\<close> or a \<open>float\<close>, as the serving size is.\<close>

datatype py_num = PyInt int | PyFloat fl

text \<open>
  The conversion of the right operand of \<open>float / number\<close> to a float: an \<open>int\<close> is
  rounded to the nearest double and raises when that is out of range.
\<close>

fun to_double :: "py_num \<Rightarrow> exc + fl" where
  "to_double (PyFloat x) = Inr x"
| "to_double (PyInt n) =
     (case rnd (of_int n) of
        Finite r \<Rightarrow> Inr (Finite r)
      | _ \<Rightarrow> Inl OverflowError)"

text \<open>\<open>x > 0\<close> on a number.\<close>

fun gt_zero :: "py_num \<Rightarrow> bool" where
  "gt_zero (PyInt n) = (n > 0)"
| "gt_zero (PyFloat x) = fl_less (Finite 0) x"

subsection \<open>NutrientNormalizer\<close>

record NutrientInfo =
  nutrient_name :: string
  nutrient_value :: fl
  nutrient_unit :: string
  per_100g :: fl

text \<open>
  \<open>re.search(r'(\d+\.?\d*)', s)\<close>, group 1: the leftmost digit starts the match, which
  takes all digits that follow, then one dot when there is one, then all digits after it.
  \<open>None\<close> when the string has no digit.
\<close>

definition value_match :: "string \<Rightarrow> string option" where
  "value_match s =
     (let r = dropWhile (\<lambda>c. \<not> is_digit c) s in
      if r = [] then None
      else (let int_part = takeWhile is_digit r in
            case dropWhile is_digit r of
              [] \<Rightarrow> Some int_part
            | d # r' \<Rightarrow>
                if d = CHR ''.'' then Some (int_part @ [d] @ takeWhile is_digit r')
                else Some int_part))"

text \<open>The number a string of decimal digits denotes.\<close>

definition digits_to_int :: "string \<Rightarrow> int" where
  "digits_to_int ds = foldl (\<lambda>a c. 10 * a + ((of_char c :: int) - 48)) 0 ds"

text \<open>
  \<open>float(m)\<close> for a string \<open>m\<close> of the shape matched above (digits, then optionally a
  dot and digits): the double nearest to the decimal number it denotes.
\<close>

definition py_float :: "string \<Rightarrow> fl" where
  "py_float m =
     (let int_part = takeWhile is_digit m;
          frac_part = takeWhile is_digit (drop (Suc (length int_part)) m)
      in rnd (of_int (digits_to_int int_part)
              + of_int (digits_to_int frac_part) / 10 ^ length frac_part))"

text \<open>
  \<open>re.search(r'(mg|g|kcal|cal)', s)\<close>, group 1: at the leftmost position where one of
  the alternatives matches, the first alternative that does.
\<close>

fun unit_match :: "string \<Rightarrow> string option" where
  "unit_match [] = None"
| "unit_match (c # cs) =
     (if starts_with ''mg'' (c # cs) then Some ''mg''
      else if starts_with ''g'' (c # cs) then Some ''g''
      else if starts_with ''kcal'' (c # cs) then Some ''kcal''
      else if starts_with ''cal'' (c # cs) then Some ''cal''
      else unit_match cs)"

text \<open>\<open>key.lower().replace(' ', '_')\<close>, the key under which an entry is stored.\<close>

definition output_key :: "string \<Rightarrow> string" where
  "output_key key = map (\<lambda>c. if c = CHR '' '' then CHR ''_'' else c) (lower key)"

text \<open>
  \<open>(value / serving_size_g) * 100 if serving_size_g > 0 else value\<close>. The division
  converts an \<open>int\<close> serving size to a float first, which raises when it is too large.
\<close>

definition rescale :: "fl \<Rightarrow> py_num \<Rightarrow> exc + fl" where
  "rescale v serving_size_g =
     (if gt_zero serving_size_g
      then (case to_double serving_size_g of
              Inl e \<Rightarrow> Inl e
            | Inr s \<Rightarrow>
                (case py_truediv v s of
                   Inl e \<Rightarrow> Inl e
                 | Inr q \<Rightarrow> Inr (fl_mul q (Finite 100))))
      else Inr v)"

text \<open>
  The body of the \<open>try\<close> block of \<open>normalize_nutrients\<close> for one entry. \<open>Inl\<close> is an
  exception raised in it, \<open>Inr None\<close> the \<open>continue\<close> taken when no number is found,
  \<open>Inr (Some info)\<close> the NutrientInfo that is stored.
\<close>

definition normalize_body :: "string \<Rightarrow> string \<Rightarrow> py_num \<Rightarrow> exc + NutrientInfo option" where
  "normalize_body key value_str serving_size_g =
     (case value_match value_str of
        None \<Rightarrow> Inr None
      | Some m \<Rightarrow>
          (let v = py_float m;
               u = (case unit_match (lower value_str) of Some u' \<Rightarrow> u' | None \<Rightarrow> ''g'')
           in case rescale v serving_size_g of
                Inl e \<Rightarrow> Inl e
              | Inr p \<Rightarrow>
                  if u = ''mg'' \<and> lower key \<notin> set [''sodium'', ''cholesterol'']
                  then (case py_truediv p (Finite 1000) of
                          Inl e \<Rightarrow> Inl e
                        | Inr p' \<Rightarrow>
                            Inr (Some \<lparr>nutrient_name = key, nutrient_value = v,
                                        nutrient_unit = ''g'', per_100g = p'\<rparr>))
                  else Inr (Some \<lparr>nutrient_name = key, nutrient_value = v,
                                    nutrient_unit = u, per_100g = p\<rparr>)))"

text \<open>
  The loop of \<open>normalize_nutrients\<close>: the entries are visited in the order of the input
  dictionary; \<open>except Exception\<close> catches whatever the body raises and goes on with the
  next entry, as the \<open>continue\<close> does; a stored entry replaces an earlier one with the
  same output key.
\<close>

fun normalize_loop ::
  "py_num \<Rightarrow> (string \<times> NutrientInfo) list \<Rightarrow> (string \<times> string) list \<Rightarrow>
     exc + (string \<times> NutrientInfo) list" where
  "normalize_loop serving_size_g normalized [] = Inr normalized"
| "normalize_loop serving_size_g normalized (entry # rest) =
     (case normalize_body (fst entry) (snd entry) serving_size_g of
        Inl e \<Rightarrow> normalize_loop serving_size_g normalized rest
      | Inr None \<Rightarrow> normalize_loop serving_size_g normalized rest
      | Inr (Some info) \<Rightarrow>
          normalize_loop serving_size_g
            (AList.update (output_key (fst entry)) info normalized) rest)"

definition normalize_nutrients ::
  "(string \<times> string) list \<Rightarrow> py_num \<Rightarrow> exc + (string \<times> NutrientInfo) list" where
  "normalize_nutrients raw_nutrients serving_size_g =
     normalize_loop serving_size_g [] raw_nutrients"

subsection \<open>HealthScorer\<close>

record ProductData =
  barcode :: "string option"
  name :: string
  brand :: string
  ingredients :: "string list"
  nutrients :: "(string \<times> NutrientInfo) list"
  serving_size_g :: "py_num option"
  categories :: "string list"

record ScoreDriver =
  factor :: string
  impact :: string
  score_delta :: fl
  source :: string

record HealthScore =
  overall_score :: int
  band :: string
  drivers :: "ScoreDriver list"
  evidence_sources :: "string list"
  confidence :: string
  warnings :: "string list"

definition sources :: "string list" where
  "sources =
     [''FDA Nutrition Facts Label Guidelines (2016)'',
      ''WHO Global Strategy on Diet, Physical Activity and Health (2004)'',
      ''Dietary Guidelines for Americans 2020-2025'',
      ''European Food Safety Authority (EFSA) Scientific Opinions'',
      ''American Heart Association Dietary Guidelines'',
      ''Harvard T.H. Chan School of Public Health Nutrition Source'']"

text \<open>
  The three accumulators of \<open>_score_nutrients\<close>: \<open>score_delta\<close>, \<open>drivers\<close> and
  \<open>warnings\<close>.
\<close>

type_synonym acc = "fl \<times> ScoreDriver list \<times> string list"

text \<open>\<open>score_delta += delta; drivers.append(driver)\<close>, and the warnings appended.\<close>

definition fire :: "acc \<Rightarrow> ScoreDriver \<Rightarrow> string list \<Rightarrow> acc" where
  "fire a d ws = (case a of (s, ds, w) \<Rightarrow> (fl_add s (score_delta d), ds @ [d], w @ ws))"

text \<open>
  The five \<open>if key in nutrients\<close> blocks of \<open>_score_nutrients\<close>, in source order. The
  literals \<open>1.5\<close> and \<open>0.5\<close> are doubles; \<open>0.3\<close> and \<open>0.01\<close> stand for the doubles
  nearest to them.
\<close>

definition fiber_rule :: "(string \<times> NutrientInfo) list \<Rightarrow> acc \<Rightarrow> acc" where
  "fiber_rule ns a =
     (case map_of ns ''dietary_fiber'' of
        None \<Rightarrow> a
      | Some n \<Rightarrow>
          (let fiber = per_100g n in
           if fl_le (Finite 6) fiber
           then fire a \<lparr>factor = ''High Fiber Content'', impact = ''positive'',
                        score_delta = py_min (Finite 10) (fl_mul fiber (Finite (3 / 2))),
                        source = ''Dietary Guidelines for Americans 2020-2025''\<rparr> []
           else a))"

definition protein_rule :: "(string \<times> NutrientInfo) list \<Rightarrow> acc \<Rightarrow> acc" where
  "protein_rule ns a =
     (case map_of ns ''protein'' of
        None \<Rightarrow> a
      | Some n \<Rightarrow>
          (let protein = per_100g n in
           if fl_le (Finite 12) protein
           then fire a \<lparr>factor = ''Good Protein Source'', impact = ''positive'',
                        score_delta = py_min (Finite 8) (fl_mul protein (rnd (3 / 10))),
                        source = ''FDA Nutrition Facts Label Guidelines''\<rparr> []
           else a))"

definition sodium_rule :: "(string \<times> NutrientInfo) list \<Rightarrow> acc \<Rightarrow> acc" where
  "sodium_rule ns a =
     (case map_of ns ''sodium'' of
        None \<Rightarrow> a
      | Some n \<Rightarrow>
          (let sodium_mg = fl_mul (per_100g n) (Finite 10) in
           if fl_less (Finite 600) sodium_mg
           then fire a \<lparr>factor = ''High Sodium Content'', impact = ''negative'',
                        score_delta =
                          fl_neg (py_min (Finite 15)
                            (fl_mul (fl_sub sodium_mg (Finite 600)) (rnd (1 / 100)))),
                        source = ''American Heart Association Dietary Guidelines''\<rparr>
                  [''High sodium content may contribute to elevated blood pressure'']
           else a))"

definition saturated_fat_rule :: "(string \<times> NutrientInfo) list \<Rightarrow> acc \<Rightarrow> acc" where
  "saturated_fat_rule ns a =
     (case map_of ns ''saturated_fat'' of
        None \<Rightarrow> a
      | Some n \<Rightarrow>
          (let sat_fat = per_100g n in
           if fl_less (Finite 5) sat_fat
           then fire a \<lparr>factor = ''High Saturated Fat'', impact = ''negative'',
                        score_delta = fl_neg (py_min (Finite 12) (fl_mul sat_fat (Finite (3 / 2)))),
                        source = ''WHO Global Strategy on Diet, Physical Activity and Health''\<rparr> []
           else a))"

definition total_sugars_rule :: "(string \<times> NutrientInfo) list \<Rightarrow> acc \<Rightarrow> acc" where
  "total_sugars_rule ns a =
     (case map_of ns ''total_sugars'' of
        None \<Rightarrow> a
      | Some n \<Rightarrow>
          (let sugars = per_100g n in
           if fl_less (Finite 15) sugars
           then fire a \<lparr>factor = ''High Sugar Content'', impact = ''negative'',
                        score_delta = fl_neg (py_min (Finite 10) (fl_mul sugars (Finite (1 / 2)))),
                        source = ''WHO Global Strategy on Diet, Physical Activity and Health''\<rparr> []
           else a))"

definition score_nutrients :: "(string \<times> NutrientInfo) list \<Rightarrow> acc" where
  "score_nutrients ns =
     total_sugars_rule ns (saturated_fat_rule ns (sodium_rule ns
       (protein_rule ns (fiber_rule ns (Finite 0, [], [])))))"

text \<open>
  The accumulators of \<open>_score_ingredients\<close>; its score is an \<open>int\<close>, every delta being
  one. A driver records the delta as the number of the same value.
\<close>

type_synonym iacc = "int \<times> ScoreDriver list \<times> string list"

definition ifire :: "iacc \<Rightarrow> string \<Rightarrow> string \<Rightarrow> int \<Rightarrow> string \<Rightarrow> string list \<Rightarrow> iacc" where
  "ifire a f i delta src ws =
     (case a of (s, ds, w) \<Rightarrow>
        (s + delta,
         ds @ [\<lparr>factor = f, impact = i, score_delta = Finite (of_int delta), source = src\<rparr>],
         w @ ws))"

text \<open>The three blocks of \<open>_score_ingredients\<close>, each on the classification.\<close>

definition harmful_rule :: "classification \<Rightarrow> iacc \<Rightarrow> iacc" where
  "harmful_rule cl a =
     (let harmful_count = length (harmful_additives cl) in
      if harmful_count > 0
      then ifire a ''Harmful Additives Present'' ''negative''
             (- int (min 15 (harmful_count * 5)))
             ''EFSA Scientific Opinions on Food Additives''
             [''Contains additives that some studies suggest may have negative health effects'']
      else a)"

definition processed_rule :: "classification \<Rightarrow> iacc \<Rightarrow> iacc" where
  "processed_rule cl a =
     (let processed_count = length (ultra_processed_markers cl) in
      if processed_count > 3
      then ifire a ''Highly Processed Food'' ''negative''
             (- int (min 8 (processed_count * 2)))
             ''Harvard T.H. Chan School of Public Health'' []
      else a)"

definition beneficial_rule :: "classification \<Rightarrow> iacc \<Rightarrow> iacc" where
  "beneficial_rule cl a =
     (let beneficial_count = length (beneficial_ingredients cl) in
      if beneficial_count > 0
      then ifire a ''Beneficial Ingredients'' ''positive''
             (int (min 10 (beneficial_count * 3)))
             ''Dietary Guidelines for Americans 2020-2025'' []
      else a)"

definition score_ingredients :: "string list \<Rightarrow> iacc" where
  "score_ingredients ings =
     (let cl = classify_ingredients ings in
      beneficial_rule cl (processed_rule cl (harmful_rule cl (0, [], []))))"

definition calculate_confidence :: "string list \<Rightarrow> ProductData \<Rightarrow> string" where
  "calculate_confidence confidence_factors product =
     (let s0 = (0 :: int);
          s1 = (if ''nutrients'' \<in> set confidence_factors then s0 + 50 else s0);
          s2 = (if ''ingredients'' \<in> set confidence_factors then s1 + 30 else s1);
          s3 = (if barcode product \<noteq> None \<and> barcode product \<noteq> Some [] then s2 + 10 else s2);
          s4 = (if brand product \<noteq> [] then s3 + 10 else s3)
      in if s4 \<ge> 80 then ''high'' else if s4 \<ge> 60 then ''medium'' else ''low'')"

definition band_of :: "int \<Rightarrow> string" where
  "band_of final_score =
     (if final_score \<ge> 80 then ''A''
      else if final_score \<ge> 65 then ''B''
      else if final_score \<ge> 50 then ''C''
      else if final_score \<ge> 35 then ''D''
      else ''E'')"

text \<open>
  \<open>score_product\<close>. The state after the nutrient block and after the ingredient block
  is (\<open>base_score\<close>, \<open>drivers\<close>, \<open>warnings\<close>, \<open>confidence_factors\<close>); an empty dictionary
  or list is falsy and skips its block. \<open>int(base_score)\<close> is the one operation that
  can raise.
\<close>

definition score_product :: "ProductData \<Rightarrow> exc + HealthScore" where
  "score_product product =
     (let st0 = (Finite 50, ([] :: ScoreDriver list), ([] :: string list), ([] :: string list));
          st1 = (if nutrients product \<noteq> []
                 then (case st0 of (b, ds, ws, cf) \<Rightarrow>
                         (case score_nutrients (nutrients product) of (s, nd, nw) \<Rightarrow>
                            (fl_add b s, ds @ nd, ws @ nw, cf @ [''nutrients''])))
                 else st0);
          st2 = (if ingredients product \<noteq> []
                 then (case st1 of (b, ds, ws, cf) \<Rightarrow>
                         (case score_ingredients (ingredients product) of (s, idr, iw) \<Rightarrow>
                            (fl_add b (Finite (of_int s)), ds @ idr, ws @ iw,
                             cf @ [''ingredients''])))
                 else st1)
      in case st2 of (base_score, ds, ws, confidence_factors) \<Rightarrow>
           (case py_int base_score of
              Inl e \<Rightarrow> Inl e
            | Inr n \<Rightarrow>
                (let final_score = max 0 (min 100 n) in
                 Inr \<lparr>overall_score = final_score,
                      band = band_of final_score,
                      drivers = ds,
                      evidence_sources = sources,
                      confidence = calculate_confidence confidence_factors product,
                      warnings = ws\<rparr>)))"

section \<open>Notions used in the statements\<close>

text \<open>A float is finite and at most \<open>B\<close> in magnitude.\<close>

definition bounded :: "rat \<Rightarrow> fl \<Rightarrow> bool" where
  "bounded B x = (case x of Finite q \<Rightarrow> \<bar>q\<bar> \<le> B | _ \<Rightarrow> False)"

text \<open>A float is not negative: a finite value from zero on, or plus infinity.\<close>

definition not_negative :: "fl \<Rightarrow> bool" where
  "not_negative x = (case x of Finite q \<Rightarrow> 0 \<le> q | PInf \<Rightarrow> True | _ \<Rightarrow> False)"

text \<open>The sum the scorer accumulates: \<open>0 + d1 + d2 + ...\<close>, from the left, in doubles.\<close>

definition fsum :: "fl list \<Rightarrow> fl" where
  "fsum ds = foldl fl_add (Finite 0) ds"

text \<open>The score an accumulator holds is the sum of the deltas of the drivers it holds.\<close>

definition acc_sum :: "acc \<Rightarrow> bool" where
  "acc_sum a = (fst a = fsum (map score_delta (fst (snd a))))"

text \<open>
  The integer score of the ingredient accumulator is the sum of the integers \<open>ks\<close>, which
  are the deltas of its drivers.
\<close>

definition iacc_sum :: "iacc \<Rightarrow> int list \<Rightarrow> bool" where
  "iacc_sum a ks =
     (fst a = sum_list ks \<and> map score_delta (fst (snd a)) = map (\<lambda>k. Finite (of_int k)) ks)"

text \<open>The drivers of the two blocks of \<open>score_product\<close>; a block that is skipped has none.\<close>

definition nutrient_drivers :: "ProductData \<Rightarrow> ScoreDriver list" where
  "nutrient_drivers p =
     (if nutrients p \<noteq> [] then fst (snd (score_nutrients (nutrients p))) else [])"

definition ingredient_drivers :: "ProductData \<Rightarrow> ScoreDriver list" where
  "ingredient_drivers p =
     (if ingredients p \<noteq> [] then fst (snd (score_ingredients (ingredients p))) else [])"

text \<open>
  The base score as the source accumulates it from the deltas: 50, plus the sum of the
  nutrient deltas when the product has nutrients, plus the integer sum of the ingredient
  deltas when it has ingredients.
\<close>

definition accumulate :: "ProductData \<Rightarrow> fl list \<Rightarrow> int list \<Rightarrow> fl" where
  "accumulate p nds ks =
     (let b = (if nutrients p \<noteq> [] then fl_add (Finite 50) (fsum nds) else Finite 50)
      in if ingredients p \<noteq> [] then fl_add b (Finite (of_int (sum_list ks))) else b)"

text \<open>The value of \<open>base_score\<close> when \<open>score_product\<close> reaches the clamp.\<close>

definition base_score :: "ProductData \<Rightarrow> fl" where
  "base_score p =
     (let b = (if nutrients p \<noteq> [] then fl_add (Finite 50) (fst (score_nutrients (nutrients p)))
               else Finite 50)
      in if ingredients p \<noteq> []
         then fl_add b (Finite (of_int (fst (score_ingredients (ingredients p))))) else b)"

text \<open>A product with 6.5 g of fibre per 100 g and nothing else.\<close>

definition fiber_only :: ProductData where
  "fiber_only = \<lparr>barcode = None, name = [], brand = [], ingredients = [],
     nutrients = [(''dietary_fiber'', \<lparr>nutrient_name = ''dietary_fiber'',
                    nutrient_value = Finite (13 / 2),
                    nutrient_unit = ''g'', per_100g = Finite (13 / 2)\<rparr>)],
     serving_size_g = None, categories = []\<rparr>"

text \<open>The per-100g value stored under a nutrient key, when the key is present.\<close>

definition per100 :: "(string \<times> NutrientInfo) list \<Rightarrow> string \<Rightarrow> fl option" where
  "per100 ns k = map_option per_100g (map_of ns k)"

text \<open>
  The deltas one rule adds: none when the key is missing or the condition fails,
  otherwise the one delta computed from the per-100g value.
\<close>

definition contribution :: "fl option \<Rightarrow> (fl \<Rightarrow> bool) \<Rightarrow> (fl \<Rightarrow> fl) \<Rightarrow> fl list" where
  "contribution v cond delta =
     (case v of None \<Rightarrow> [] | Some x \<Rightarrow> if cond x then [delta x] else [])"

text \<open>A nutrient dictionary on which the fibre, protein and sodium rules fire.\<close>

definition sample_nutrients :: "(string \<times> NutrientInfo) list" where
  "sample_nutrients =
     [(''dietary_fiber'', \<lparr>nutrient_name = ''Dietary Fiber'', nutrient_value = Finite 8,
         nutrient_unit = ''g'', per_100g = Finite 20\<rparr>),
      (''sodium'', \<lparr>nutrient_name = ''Sodium'', nutrient_value = Finite 61,
         nutrient_unit = ''mg'', per_100g = Finite 61\<rparr>),
      (''protein'', \<lparr>nutrient_name = ''Protein'', nutrient_value = Finite 12,
         nutrient_unit = ''g'', per_100g = Finite 12\<rparr>),
      (''total_sugars'', \<lparr>nutrient_name = ''Total Sugars'', nutrient_value = Finite 1,
         nutrient_unit = ''g'', per_100g = Finite (5 / 2)\<rparr>)]"

text \<open>An accumulator with its drivers reduced to their deltas.\<close>

definition acc_parts :: "acc \<Rightarrow> fl \<times> fl list \<times> string list" where
  "acc_parts a = (fst a, map score_delta (fst (snd a)), snd (snd a))"

text \<open>A value string holds a number when it has a digit.\<close>

definition has_number :: "string \<Rightarrow> bool" where
  "has_number value_str = list_ex is_digit value_str"

text \<open>
  A value string holds a unit token when one of the four tokens occurs in its
  lower-cased form.
\<close>

definition has_unit_token :: "string \<Rightarrow> bool" where
  "has_unit_token value_str =
     list_ex (\<lambda>t. substring_in t (lower value_str)) [''mg'', ''g'', ''kcal'', ''cal'']"

text \<open>
  What the loop stores for an entry: the NutrientInfo of the body, and nothing when the
  body takes its \<open>continue\<close> or raises.
\<close>

definition stored :: "py_num \<Rightarrow> string \<times> string \<Rightarrow> NutrientInfo option" where
  "stored serving entry =
     (case normalize_body (fst entry) (snd entry) serving of
        Inr (Some info) \<Rightarrow> Some info
      | _ \<Rightarrow> None)"

definition store_step ::
  "py_num \<Rightarrow> (string \<times> NutrientInfo) list \<Rightarrow> string \<times> string \<Rightarrow> (string \<times> NutrientInfo) list" where
  "store_step serving normalized entry =
     (case stored serving entry of
        None \<Rightarrow> normalized
      | Some info \<Rightarrow> AList.update (output_key (fst entry)) info normalized)"

text \<open>
  The NutrientInfo the claim describes for an entry with number text \<open>m\<close>, unit token
  \<open>u\<close> and a serving size whose double is \<open>sv\<close>.
\<close>

definition expected_info :: "string \<Rightarrow> string \<Rightarrow> string \<Rightarrow> py_num \<Rightarrow> fl \<Rightarrow> NutrientInfo" where
  "expected_info key m u serving sv =
     (let v = py_float m;
          r = (if gt_zero serving then fl_mul (fl_quot v sv) (Finite 100) else v)
      in if u = ''mg'' \<and> lower key \<noteq> ''sodium'' \<and> lower key \<noteq> ''cholesterol''
         then \<lparr>nutrient_name = key, nutrient_value = v, nutrient_unit = ''g'',
               per_100g = fl_quot r (Finite 1000)\<rparr>
         else \<lparr>nutrient_name = key, nutrient_value = v, nutrient_unit = u, per_100g = r\<rparr>)"

text \<open>An ingredient contains, case-insensitively, a term of the given curated set.\<close>

definition in_harmful :: "string \<Rightarrow> bool" where
  "in_harmful i = matches_any HARMFUL_ADDITIVES (lower i)"

definition in_ultra :: "string \<Rightarrow> bool" where
  "in_ultra i = matches_any ULTRA_PROCESSED_MARKERS (lower i)"

definition in_beneficial :: "string \<Rightarrow> bool" where
  "in_beneficial i = matches_any BENEFICIAL_INGREDIENTS (lower i)"

text \<open>The ingredient contains terms of at most one of the three sets.\<close>

definition at_most_one_set :: "string \<Rightarrow> bool" where
  "at_most_one_set i =
     (\<not> (in_harmful i \<and> in_ultra i) \<and> \<not> (in_harmful i \<and> in_beneficial i) \<and>
      \<not> (in_ultra i \<and> in_beneficial i))"

text \<open>
  A variant of \<open>classify_ingredients\<close> for comparison: the three term sets are tested
  in the order given by a list of categories, the first set with a term in the
  ingredient wins. The source tests in the order harmful, ultra-processed, beneficial.
\<close>

datatype category = Harmful | UltraProcessed | Beneficial

fun in_category :: "category \<Rightarrow> string \<Rightarrow> bool" where
  "in_category Harmful i = in_harmful i"
| "in_category UltraProcessed i = in_ultra i"
| "in_category Beneficial i = in_beneficial i"

definition first_match :: "category list \<Rightarrow> string \<Rightarrow> category option" where
  "first_match order i = find (\<lambda>c. in_category c i) order"

definition classify_in_order :: "category list \<Rightarrow> string list \<Rightarrow> classification" where
  "classify_in_order order ings =
     \<lparr>harmful_additives = filter (\<lambda>i. first_match order i = Some Harmful) ings,
      ultra_processed_markers = filter (\<lambda>i. first_match order i = Some UltraProcessed) ings,
      beneficial_ingredients = filter (\<lambda>i. first_match order i = Some Beneficial) ings,
      other = filter (\<lambda>i. first_match order i = None) ings\<rparr>"

section \<open>Properties of the number model\<close>

lemma pow2_powi: "pow2 k = 2 powi k"
  by (simp add: pow2_def power_int_def push_bit_eq_mult inverse_eq_divide power_divide)

lemma pow2_pos: "0 < pow2 k"
  by (simp add: pow2_powi)

lemma pow2_add: "pow2 (i + j) = pow2 i * pow2 j"
  by (simp add: pow2_powi power_int_add)

lemma pow2_nonneg_exp: "0 \<le> k \<Longrightarrow> pow2 k = of_int (2 ^ nat k)"
  by (simp add: pow2_powi power_int_def)

lemma pow2_le_imp_le: "pow2 i \<le> pow2 j \<Longrightarrow> 0 \<le> j \<Longrightarrow> i \<le> j"
  unfolding pow2_powi by (rule power_int_le_imp_le_exp [of 2]) simp_all

lemma pow2_strict_mono: "i < j \<Longrightarrow> pow2 i < pow2 j"
  unfolding pow2_powi by (rule power_int_strict_increasing) simp_all

lemma pow2_mono: "i \<le> j \<Longrightarrow> pow2 i \<le> pow2 j"
  unfolding pow2_powi by (rule power_int_increasing) simp_all

lemma round_even_nonneg: "0 \<le> m \<Longrightarrow> 0 \<le> round_even m"
  by (simp add: round_even_def Let_def)

lemma round_even_le:
  assumes "m \<le> of_int N"
  shows "round_even m \<le> N"
proof -
  have f: "\<lfloor>m\<rfloor> \<le> N" using assms by (simp add: floor_le_iff)
  show ?thesis
  proof (cases "\<lfloor>m\<rfloor> = N")
    case True
    with assms have "m - of_int \<lfloor>m\<rfloor> \<le> 0" by simp
    then have "m - of_int \<lfloor>m\<rfloor> < 1 / 2" by linarith
    with True show ?thesis by (simp add: round_even_def Let_def)
  next
    case False
    with f have "\<lfloor>m\<rfloor> + 1 \<le> N" by simp
    with f show ?thesis by (simp add: round_even_def Let_def)
  qed
qed

lemma round_even_ge:
  assumes "of_int N \<le> m"
  shows "N \<le> round_even m"
proof -
  have "N \<le> \<lfloor>m\<rfloor>" using assms by (simp add: le_floor_iff)
  then show ?thesis by (simp add: round_even_def Let_def)
qed

lemma ilog2_lower:
  assumes "0 < a"
  shows "pow2 (ilog2 a) \<le> a"
proof -
  obtain p d where q: "quotient_of a = (p, d)" by (cases "quotient_of a") auto
  then have d: "0 < d" by (rule quotient_of_denom_pos)
  from q have a: "a = of_int p / of_int d" by (rule quotient_of_div)
  with assms d have p: "0 < p" by (simp add: zero_less_divide_iff)
  let ?k = "bitlen p - bitlen d"
  show ?thesis
  proof (cases "pow2 ?k \<le> a")
    case True
    with q show ?thesis by (simp add: ilog2_def Let_def)
  next
    case False
    from bitlen_bounds [OF p] have bp: "2 ^ nat (bitlen p - 1) \<le> p" by simp
    from bitlen_bounds [OF d] have bd: "d < 2 ^ nat (bitlen d)" by simp
    from p have p1: "1 \<le> bitlen p" by (simp add: bitlen_alt_def)
    have dn: "0 \<le> bitlen d" by (rule bitlen_nonneg)
    have "pow2 (?k - 1) = pow2 (bitlen p - 1) * pow2 (- bitlen d)"
      using pow2_add [of "bitlen p - 1" "- bitlen d"] by (simp add: algebra_simps)
    also have "\<dots> = of_int (2 ^ nat (bitlen p - 1)) / of_int (2 ^ nat (bitlen d))"
      using p1 dn pow2_nonneg_exp [of "bitlen p - 1"] pow2_nonneg_exp [of "bitlen d"]
      by (simp add: pow2_powi power_int_minus divide_inverse)
    also have "\<dots> \<le> of_int p / of_int (2 ^ nat (bitlen d))"
      using bp by (intro divide_right_mono) (simp_all flip: of_int_power add: of_int_le_iff [symmetric] del: of_int_le_iff)
    also have "\<dots> \<le> of_int p / of_int d"
      using bd d p by (intro divide_left_mono) (simp_all flip: of_int_power)
    finally have "pow2 (?k - 1) \<le> a" using a by simp
    with False q show ?thesis by (simp add: ilog2_def Let_def)
  qed
qed

lemma rnd_cases:
  assumes "q \<noteq> 0"
  obtains r where "0 \<le> r"
    and "rnd q = (if q > 0 then PInf else NInf) \<or> rnd q = Finite (if q > 0 then r else - r)"
proof -
  let ?a = "\<bar>q\<bar>"
  let ?u = "max (ilog2 ?a - 52) (- 1074)"
  let ?r = "of_int (round_even (?a / pow2 ?u)) * pow2 ?u"
  have "0 \<le> ?a / pow2 ?u" using pow2_pos [of ?u] by simp
  then have "0 \<le> round_even (?a / pow2 ?u)" by (rule round_even_nonneg)
  then have "0 \<le> ?r" using pow2_pos [of ?u] by simp
  moreover have "rnd q = (if q > 0 then PInf else NInf) \<or> rnd q = Finite (if q > 0 then ?r else - ?r)"
    using assms by (simp add: rnd_def Let_def)
  ultimately show ?thesis using that by blast
qed

lemma rnd_not_negative: "0 \<le> q \<Longrightarrow> not_negative (rnd q)"
proof (cases "q = 0")
  case True
  then show ?thesis by (simp add: rnd_def not_negative_def)
next
  case False
  assume "0 \<le> q"
  with False have q: "0 < q" by simp
  obtain r where r: "0 \<le> r"
    and c: "rnd q = (if q > 0 then PInf else NInf) \<or> rnd q = Finite (if q > 0 then r else - r)"
    by (rule rnd_cases [OF False])
  from c q have "rnd q = PInf \<or> rnd q = Finite r" by simp
  with r show ?thesis by (auto simp add: not_negative_def)
qed

lemma rnd_bounded:
  assumes "\<bar>q\<bar> \<le> pow2 k" and "0 \<le> k" and "k \<le> 1023"
  shows "bounded (pow2 k) (rnd q)"
proof (cases "q = 0")
  case True
  then show ?thesis using pow2_pos [of k] by (simp add: rnd_def bounded_def)
next
  case False
  let ?a = "\<bar>q\<bar>"
  let ?u = "max (ilog2 ?a - 52) (- 1074)"
  let ?n = "round_even (?a / pow2 ?u)"
  let ?r = "of_int ?n * pow2 ?u"
  from False have a: "0 < ?a" by simp
  have "pow2 (ilog2 ?a) \<le> pow2 k" using ilog2_lower [OF a] assms(1) by simp
  then have "ilog2 ?a \<le> k" using assms(2) by (rule pow2_le_imp_le)
  with assms(2) have u: "?u \<le> k" by simp
  have k: "pow2 k = of_int (2 ^ nat (k - ?u)) * pow2 ?u"
    using pow2_add [of "k - ?u" ?u] pow2_nonneg_exp [of "k - ?u"] u by simp
  have "?a / pow2 ?u \<le> of_int (2 ^ nat (k - ?u))"
    using assms(1) pow2_pos [of ?u] unfolding k by (simp add: field_simps)
  then have "?n \<le> 2 ^ nat (k - ?u)" by (rule round_even_le)
  then have "(of_int ?n :: rat) \<le> of_int (2 ^ nat (k - ?u))" by (simp only: of_int_le_iff)
  then have le: "?r \<le> pow2 k"
    unfolding k using pow2_pos [of ?u] by (simp add: mult_right_mono)
  have "0 \<le> ?a / pow2 ?u" using pow2_pos [of ?u] by simp
  then have "0 \<le> ?n" by (rule round_even_nonneg)
  then have ge: "0 \<le> ?r" using pow2_pos [of ?u] by simp
  have "pow2 k < pow2 1024" using assms(3) by (intro pow2_strict_mono) simp
  with le have "\<not> pow2 1024 \<le> ?r" by simp
  then have "rnd q = Finite (if q > 0 then ?r else - ?r)"
    using False by (simp add: rnd_def Let_def)
  with le ge show ?thesis by (auto simp add: bounded_def)
qed

lemma rnd_overflow:
  assumes "pow2 1024 \<le> \<bar>q\<bar>"
  shows "rnd q = (if q > 0 then PInf else NInf)"
proof -
  let ?a = "\<bar>q\<bar>"
  let ?u = "max (ilog2 ?a - 52) (- 1074)"
  let ?n = "round_even (?a / pow2 ?u)"
  let ?r = "of_int ?n * pow2 ?u"
  from assms pow2_pos [of 1024] have a: "0 < ?a" by linarith
  then have q: "q \<noteq> 0" by simp
  have "pow2 1024 \<le> ?r"
  proof (cases "?u \<le> 1024")
    case True
    have k: "pow2 1024 = of_int (2 ^ nat (1024 - ?u)) * pow2 ?u"
      using pow2_add [of "1024 - ?u" ?u] pow2_nonneg_exp [of "1024 - ?u"] True by simp
    have "of_int (2 ^ nat (1024 - ?u)) \<le> ?a / pow2 ?u"
      using assms pow2_pos [of ?u] unfolding k by (simp add: field_simps)
    then have "2 ^ nat (1024 - ?u) \<le> ?n" by (rule round_even_ge)
    then have "(of_int (2 ^ nat (1024 - ?u)) :: rat) \<le> of_int ?n" by (simp only: of_int_le_iff)
    then show ?thesis unfolding k using pow2_pos [of ?u] by (simp add: mult_right_mono)
  next
    case False
    then have u: "?u = ilog2 ?a - 52" by simp
    have "pow2 ?u \<le> pow2 (ilog2 ?a)" unfolding u by (rule pow2_mono) simp
    with ilog2_lower [OF a] have "pow2 ?u \<le> ?a" by simp
    then have "of_int 1 \<le> ?a / pow2 ?u" using pow2_pos [of ?u] by (simp add: field_simps)
    then have "1 \<le> ?n" by (rule round_even_ge)
    then have "(1 :: rat) \<le> of_int ?n" by simp
    then have "pow2 ?u \<le> ?r" using pow2_pos [of ?u] by (simp add: field_simps)
    moreover from False have "pow2 1024 \<le> pow2 ?u" by (intro pow2_mono) simp
    ultimately show ?thesis by simp
  qed
  with q show ?thesis by (simp add: rnd_def Let_def)
qed

lemma rnd_not_zero:
  assumes "1 \<le> \<bar>q\<bar>"
  shows "rnd q \<noteq> Finite 0"
proof -
  let ?a = "\<bar>q\<bar>"
  let ?u = "max (ilog2 ?a - 52) (- 1074)"
  let ?n = "round_even (?a / pow2 ?u)"
  let ?r = "of_int ?n * pow2 ?u"
  from assms have a: "0 < ?a" by linarith
  then have q: "q \<noteq> 0" by simp
  have "pow2 ?u \<le> ?a"
  proof (cases "ilog2 ?a - 52 \<ge> - 1074")
    case True
    then have u: "?u = ilog2 ?a - 52" by simp
    have "pow2 ?u \<le> pow2 (ilog2 ?a)" unfolding u by (rule pow2_mono) simp
    with ilog2_lower [OF a] show ?thesis by simp
  next
    case False
    then have u: "?u = - 1074" by simp
    have "pow2 (- 1074) \<le> pow2 0" by (rule pow2_mono) simp
    also have "pow2 0 = 1" by (simp add: pow2_def)
    finally show ?thesis using assms unfolding u by simp
  qed
  then have "of_int 1 \<le> ?a / pow2 ?u" using pow2_pos [of ?u] by (simp add: field_simps)
  then have "1 \<le> ?n" by (rule round_even_ge)
  then have "(1 :: rat) \<le> of_int ?n" by simp
  then have "pow2 ?u \<le> ?r" using pow2_pos [of ?u] by (simp add: field_simps)
  with pow2_pos [of ?u] have "0 < ?r" by linarith
  with q show ?thesis by (auto simp add: rnd_def Let_def)
qed

lemma bounded_mono: "bounded B x \<Longrightarrow> B \<le> C \<Longrightarrow> bounded C x"
  by (cases x) (simp_all add: bounded_def)

lemma fl_add_bounded:
  assumes "bounded (pow2 k) x" and "bounded (pow2 k) y" and "0 \<le> k" and "k \<le> 1022"
  shows "bounded (pow2 (k + 1)) (fl_add x y)"
proof -
  from assms(1) obtain a where x: "x = Finite a" and a: "\<bar>a\<bar> \<le> pow2 k"
    by (cases x) (simp_all add: bounded_def)
  from assms(2) obtain b where y: "y = Finite b" and b: "\<bar>b\<bar> \<le> pow2 k"
    by (cases y) (simp_all add: bounded_def)
  have "pow2 (k + 1) = 2 * pow2 k" using pow2_add [of k 1] by (simp add: pow2_def)
  with a b have "\<bar>a + b\<bar> \<le> pow2 (k + 1)" by linarith
  then have "bounded (pow2 (k + 1)) (rnd (a + b))"
    using assms(3,4) by (intro rnd_bounded) simp_all
  then show ?thesis by (simp add: x y)
qed

lemma fl_mul_not_negative:
  "not_negative x \<Longrightarrow> 0 < c \<Longrightarrow> not_negative (fl_mul x (Finite c))"
  by (cases x) (simp_all add: not_negative_def rnd_not_negative [unfolded not_negative_def])

lemma fl_less_not_negative: "fl_less (Finite c) x \<Longrightarrow> 0 \<le> c \<Longrightarrow> not_negative x"
  by (cases x) (simp_all add: not_negative_def)

lemma fl_le_not_negative: "fl_le (Finite c) x \<Longrightarrow> 0 \<le> c \<Longrightarrow> not_negative x"
  by (cases x) (simp_all add: not_negative_def)

lemma fl_sub_not_negative: "fl_less (Finite c) x \<Longrightarrow> not_negative (fl_sub x (Finite c))"
  by (cases x) (simp_all add: fl_sub_def not_negative_def rnd_not_negative [unfolded not_negative_def])

lemma py_min_range:
  assumes "not_negative y" and "0 \<le> c"
  shows "\<exists>r. py_min (Finite c) y = Finite r \<and> 0 \<le> r \<and> r \<le> c"
  using assms by (cases y) (auto simp add: py_min_def not_negative_def)

lemma literal_0_3: "rnd (3 / 10) = Finite (5404319552844595 / 18014398509481984)"
  by code_simp

lemma literal_0_01: "rnd (1 / 100) = Finite (5764607523034235 / 576460752303423488)"
  by code_simp

section \<open>Properties of the scorer\<close>

lemma fsum_snoc: "fsum (ds @ [d]) = fl_add (fsum ds) d"
  by (simp add: fsum_def)

lemma acc_sum_fire: "acc_sum a \<Longrightarrow> acc_sum (fire a d ws)"
  by (cases a) (simp add: acc_sum_def fire_def fsum_snoc)

lemma acc_sum_nutrient_rules:
  "acc_sum a \<Longrightarrow> acc_sum (fiber_rule ns a)"
  "acc_sum a \<Longrightarrow> acc_sum (protein_rule ns a)"
  "acc_sum a \<Longrightarrow> acc_sum (sodium_rule ns a)"
  "acc_sum a \<Longrightarrow> acc_sum (saturated_fat_rule ns a)"
  "acc_sum a \<Longrightarrow> acc_sum (total_sugars_rule ns a)"
  by (simp_all add: fiber_rule_def protein_rule_def sodium_rule_def saturated_fat_rule_def
        total_sugars_rule_def Let_def acc_sum_fire split: option.split)

lemma acc_sum_init: "acc_sum (Finite 0, [], [])"
  by (simp add: acc_sum_def fsum_def)

lemma score_nutrients_sum: "acc_sum (score_nutrients ns)"
  unfolding score_nutrients_def by (intro acc_sum_nutrient_rules acc_sum_init)

lemma iacc_sum_ifire: "iacc_sum a ks \<Longrightarrow> iacc_sum (ifire a f i delta src ws) (ks @ [delta])"
  by (cases a) (simp add: iacc_sum_def ifire_def)

lemma iacc_sum_ingredient_rules:
  "\<exists>ks. iacc_sum a ks \<Longrightarrow> \<exists>ks. iacc_sum (harmful_rule cl a) ks"
  "\<exists>ks. iacc_sum a ks \<Longrightarrow> \<exists>ks. iacc_sum (processed_rule cl a) ks"
  "\<exists>ks. iacc_sum a ks \<Longrightarrow> \<exists>ks. iacc_sum (beneficial_rule cl a) ks"
  by (auto simp add: harmful_rule_def processed_rule_def beneficial_rule_def Let_def
        intro: iacc_sum_ifire)

lemma iacc_sum_init: "\<exists>ks. iacc_sum (0, [], []) ks"
  by (rule exI [of _ "[]"]) (simp add: iacc_sum_def)

lemma score_ingredients_sum: "\<exists>ks. iacc_sum (score_ingredients ings) ks"
  unfolding score_ingredients_def Let_def by (intro iacc_sum_ingredient_rules iacc_sum_init)

lemma pow2_4: "pow2 4 = 16"
  by (simp add: pow2_def)

lemma delta_bounded:
  assumes "\<exists>r. d = Finite r \<and> 0 \<le> r \<and> r \<le> c" and "c \<le> 16"
  shows "bounded (pow2 4) d" and "bounded (pow2 4) (fl_neg d)"
  using assms by (auto simp add: bounded_def pow2_4)

lemma fiber_delta_bounded:
  "fl_le (Finite 6) x \<Longrightarrow> bounded (pow2 4) (py_min (Finite 10) (fl_mul x (Finite (3 / 2))))"
  by (intro delta_bounded(1) [of _ 10] py_min_range fl_mul_not_negative fl_le_not_negative [of 6])
     simp_all

lemma protein_delta_bounded:
  "fl_le (Finite 12) x \<Longrightarrow> bounded (pow2 4) (py_min (Finite 8) (fl_mul x (rnd (3 / 10))))"
  unfolding literal_0_3
  by (intro delta_bounded(1) [of _ 8] py_min_range fl_mul_not_negative fl_le_not_negative [of 12])
     simp_all

lemma sodium_delta_bounded:
  "fl_less (Finite 600) x \<Longrightarrow>
   bounded (pow2 4) (fl_neg (py_min (Finite 15) (fl_mul (fl_sub x (Finite 600)) (rnd (1 / 100)))))"
  unfolding literal_0_01
  by (intro delta_bounded(2) [of _ 15] py_min_range fl_mul_not_negative fl_sub_not_negative)
     simp_all

lemma saturated_fat_delta_bounded:
  "fl_less (Finite 5) x \<Longrightarrow>
   bounded (pow2 4) (fl_neg (py_min (Finite 12) (fl_mul x (Finite (3 / 2)))))"
  by (intro delta_bounded(2) [of _ 12] py_min_range fl_mul_not_negative fl_less_not_negative [of 5])
     simp_all

lemma total_sugars_delta_bounded:
  "fl_less (Finite 15) x \<Longrightarrow>
   bounded (pow2 4) (fl_neg (py_min (Finite 10) (fl_mul x (Finite (1 / 2)))))"
  by (intro delta_bounded(2) [of _ 10] py_min_range fl_mul_not_negative fl_less_not_negative [of 15])
     simp_all

lemma step_bounded:
  assumes "bounded (pow2 k) (fst a)" and "4 \<le> k" and "k \<le> 1022"
    and "c \<Longrightarrow> bounded (pow2 4) (score_delta d)"
  shows "bounded (pow2 (k + 1)) (fst (if c then fire a d ws else a))"
proof (cases c)
  case True
  have "pow2 4 \<le> pow2 k" using assms(2) by (rule pow2_mono)
  with assms(4) [OF True] have "bounded (pow2 k) (score_delta d)" by (rule bounded_mono)
  with assms(1) have "bounded (pow2 (k + 1)) (fl_add (fst a) (score_delta d))"
    using assms(2,3) by (intro fl_add_bounded) simp_all
  with True show ?thesis by (cases a) (simp add: fire_def)
next
  case False
  have "pow2 k \<le> pow2 (k + 1)" by (rule pow2_mono) simp
  with assms(1) have "bounded (pow2 (k + 1)) (fst a)" by (rule bounded_mono)
  with False show ?thesis by simp
qed

lemma keep_bounded:
  assumes "bounded (pow2 k) x" and "k \<le> j"
  shows "bounded (pow2 j) x"
proof -
  have "pow2 k \<le> pow2 j" using assms(2) by (rule pow2_mono)
  with assms(1) show ?thesis by (rule bounded_mono)
qed

lemma nutrient_rules_bounded:
  assumes "bounded (pow2 k) (fst a)" and "4 \<le> k" and "k \<le> 1022"
  shows "bounded (pow2 (k + 1)) (fst (fiber_rule ns a))"
    and "bounded (pow2 (k + 1)) (fst (protein_rule ns a))"
    and "bounded (pow2 (k + 1)) (fst (sodium_rule ns a))"
    and "bounded (pow2 (k + 1)) (fst (saturated_fat_rule ns a))"
    and "bounded (pow2 (k + 1)) (fst (total_sugars_rule ns a))"
proof -
  have keep: "bounded (pow2 (k + 1)) (fst a)"
    using assms(1) by (rule keep_bounded) simp
  show "bounded (pow2 (k + 1)) (fst (fiber_rule ns a))"
  proof (cases "map_of ns ''dietary_fiber''")
    case None
    with keep show ?thesis by (simp add: fiber_rule_def)
  next
    case (Some n)
    show ?thesis
      unfolding fiber_rule_def Some option.case Let_def
      by (rule step_bounded [OF assms]) (simp add: fiber_delta_bounded)
  qed
  show "bounded (pow2 (k + 1)) (fst (protein_rule ns a))"
  proof (cases "map_of ns ''protein''")
    case None
    with keep show ?thesis by (simp add: protein_rule_def)
  next
    case (Some n)
    show ?thesis
      unfolding protein_rule_def Some option.case Let_def
      by (rule step_bounded [OF assms]) (simp add: protein_delta_bounded)
  qed
  show "bounded (pow2 (k + 1)) (fst (sodium_rule ns a))"
  proof (cases "map_of ns ''sodium''")
    case None
    with keep show ?thesis by (simp add: sodium_rule_def)
  next
    case (Some n)
    show ?thesis
      unfolding sodium_rule_def Some option.case Let_def
      by (rule step_bounded [OF assms]) (simp add: sodium_delta_bounded)
  qed
  show "bounded (pow2 (k + 1)) (fst (saturated_fat_rule ns a))"
  proof (cases "map_of ns ''saturated_fat''")
    case None
    with keep show ?thesis by (simp add: saturated_fat_rule_def)
  next
    case (Some n)
    show ?thesis
      unfolding saturated_fat_rule_def Some option.case Let_def
      by (rule step_bounded [OF assms]) (simp add: saturated_fat_delta_bounded)
  qed
  show "bounded (pow2 (k + 1)) (fst (total_sugars_rule ns a))"
  proof (cases "map_of ns ''total_sugars''")
    case None
    with keep show ?thesis by (simp add: total_sugars_rule_def)
  next
    case (Some n)
    show ?thesis
      unfolding total_sugars_rule_def Some option.case Let_def
      by (rule step_bounded [OF assms]) (simp add: total_sugars_delta_bounded)
  qed
qed

lemma score_nutrients_bounded: "bounded (pow2 9) (fst (score_nutrients ns))"
proof -
  have 0: "bounded (pow2 4) (fst (Finite 0 :: fl, [] :: ScoreDriver list, [] :: string list))"
    by (simp add: bounded_def pow2_4)
  have "bounded (pow2 (4 + 1)) (fst (fiber_rule ns (Finite 0, [], [])))"
    by (rule nutrient_rules_bounded(1) [OF 0]) simp_all
  then have "bounded (pow2 (5 + 1)) (fst (protein_rule ns (fiber_rule ns (Finite 0, [], []))))"
    by (intro nutrient_rules_bounded(2)) simp_all
  then have "bounded (pow2 (6 + 1))
      (fst (sodium_rule ns (protein_rule ns (fiber_rule ns (Finite 0, [], [])))))"
    by (intro nutrient_rules_bounded(3)) simp_all
  then have "bounded (pow2 (7 + 1))
      (fst (saturated_fat_rule ns (sodium_rule ns (protein_rule ns
         (fiber_rule ns (Finite 0, [], []))))))"
    by (intro nutrient_rules_bounded(4)) simp_all
  then have "bounded (pow2 (8 + 1))
      (fst (total_sugars_rule ns (saturated_fat_rule ns (sodium_rule ns (protein_rule ns
         (fiber_rule ns (Finite 0, [], [])))))))"
    by (intro nutrient_rules_bounded(5)) simp_all
  then show ?thesis by (simp add: score_nutrients_def)
qed

lemma score_ingredients_range:
  "- 23 \<le> fst (score_ingredients ings) \<and> fst (score_ingredients ings) \<le> 10"
  by (simp add: score_ingredients_def harmful_rule_def processed_rule_def beneficial_rule_def
        ifire_def Let_def min_def)

lemma pow2_9: "pow2 9 = 512"
  by (simp add: pow2_def)

lemma base_score_bounded: "bounded (pow2 11) (base_score p)"
proof -
  let ?b = "if nutrients p \<noteq> [] then fl_add (Finite 50) (fst (score_nutrients (nutrients p)))
            else Finite 50"
  have 50: "bounded (pow2 9) (Finite 50)" by (simp add: bounded_def pow2_9)
  have "bounded (pow2 (9 + 1)) (fl_add (Finite 50) (fst (score_nutrients (nutrients p))))"
    using 50 score_nutrients_bounded by (rule fl_add_bounded) simp_all
  moreover have "bounded (pow2 (9 + 1)) (Finite 50)" using 50 by (rule keep_bounded) simp
  ultimately have b: "bounded (pow2 10) ?b" by simp
  from score_ingredients_range [of "ingredients p"]
  have "\<bar>fst (score_ingredients (ingredients p))\<bar> \<le> 512" by linarith
  then have "(of_int \<bar>fst (score_ingredients (ingredients p))\<bar> :: rat) \<le> of_int 512"
    by (simp only: of_int_le_iff)
  then have "bounded (pow2 9) (Finite (of_int (fst (score_ingredients (ingredients p)))))"
    by (simp add: bounded_def pow2_9)
  then have i: "bounded (pow2 10) (Finite (of_int (fst (score_ingredients (ingredients p)))))"
    by (rule keep_bounded) simp
  have "bounded (pow2 (10 + 1)) (fl_add ?b (Finite (of_int (fst (score_ingredients (ingredients p))))))"
    using b i by (rule fl_add_bounded) simp_all
  moreover have "bounded (pow2 (10 + 1)) ?b"
    using b by (rule keep_bounded) simp
  ultimately show ?thesis by (simp add: base_score_def Let_def)
qed

lemma score_product_eq:
  "score_product p =
     (case py_int (base_score p) of
        Inl e \<Rightarrow> Inl e
      | Inr n \<Rightarrow>
          Inr \<lparr>overall_score = max 0 (min 100 n),
               band = band_of (max 0 (min 100 n)),
               drivers = nutrient_drivers p @ ingredient_drivers p,
               evidence_sources = sources,
               confidence = calculate_confidence
                 ((if nutrients p \<noteq> [] then [''nutrients''] else []) @
                  (if ingredients p \<noteq> [] then [''ingredients''] else [])) p,
               warnings =
                 (if nutrients p \<noteq> [] then snd (snd (score_nutrients (nutrients p))) else []) @
                 (if ingredients p \<noteq> [] then snd (snd (score_ingredients (ingredients p)))
                  else [])\<rparr>)"
  by (simp add: score_product_def base_score_def nutrient_drivers_def ingredient_drivers_def
        Let_def split: prod.split sum.split)

lemma score_product_returns:
  "\<exists>q. base_score p = Finite q \<and>
     score_product p =
       Inr \<lparr>overall_score = max 0 (min 100 (trunc q)),
            band = band_of (max 0 (min 100 (trunc q))),
            drivers = nutrient_drivers p @ ingredient_drivers p,
            evidence_sources = sources,
            confidence = calculate_confidence
              ((if nutrients p \<noteq> [] then [''nutrients''] else []) @
               (if ingredients p \<noteq> [] then [''ingredients''] else [])) p,
            warnings =
              (if nutrients p \<noteq> [] then snd (snd (score_nutrients (nutrients p))) else []) @
              (if ingredients p \<noteq> [] then snd (snd (score_ingredients (ingredients p)))
               else [])\<rparr>"
proof -
  from base_score_bounded [of p] obtain q where q: "base_score p = Finite q"
    by (cases "base_score p") (simp_all add: bounded_def)
  then show ?thesis by (simp add: score_product_eq)
qed

lemma base_score_accumulate:
  assumes "iacc_sum (score_ingredients (ingredients p)) ks"
  shows "base_score p = accumulate p (map score_delta (nutrient_drivers p)) ks"
proof -
  have "fst (score_nutrients (nutrients p)) =
      fsum (map score_delta (fst (snd (score_nutrients (nutrients p)))))"
    using score_nutrients_sum [of "nutrients p"] by (simp add: acc_sum_def)
  moreover from assms have "fst (score_ingredients (ingredients p)) = sum_list ks"
    by (simp add: iacc_sum_def)
  ultimately show ?thesis
    by (simp add: base_score_def accumulate_def nutrient_drivers_def Let_def)
qed

text \<open>
  C1, as the code has it. \<open>score_product\<close> returns for every product, and the overall
  score is the accumulated score with the fractional part dropped by \<open>int\<close> (truncation,
  not rounding to the nearest integer), clamped to 0..100. The accumulated score is 50,
  plus the nutrient score when the product has nutrients, plus the ingredient score when
  it has ingredients, each sum taken in double arithmetic in the order of the code: the
  nutrient score is 0 + d1 + d2 + ... over the deltas of the nutrient drivers, the
  ingredient score is the integer sum of the deltas of the ingredient drivers.
\<close>

theorem score_product_truncates:
  "\<exists>h q ks. score_product p = Inr h \<and>
     drivers h = nutrient_drivers p @ ingredient_drivers p \<and>
     map score_delta (ingredient_drivers p) = map (\<lambda>k. Finite (of_int k)) ks \<and>
     accumulate p (map score_delta (nutrient_drivers p)) ks = Finite q \<and>
     overall_score h = max 0 (min 100 (trunc q))"
proof -
  from score_product_returns [of p] obtain q h where q: "base_score p = Finite q"
    and h: "score_product p = Inr h" "overall_score h = max 0 (min 100 (trunc q))"
      "drivers h = nutrient_drivers p @ ingredient_drivers p"
    by force
  show ?thesis
  proof (cases "ingredients p = []")
    case True
    have "iacc_sum (0, [], []) []" by (simp add: iacc_sum_def)
    have "base_score p = accumulate p (map score_delta (nutrient_drivers p)) []"
      using True by (simp add: base_score_def accumulate_def nutrient_drivers_def Let_def
          score_nutrients_sum [unfolded acc_sum_def])
    moreover have "map score_delta (ingredient_drivers p) = map (\<lambda>k. Finite (of_int k)) []"
      using True by (simp add: ingredient_drivers_def)
    ultimately show ?thesis using q h by metis
  next
    case False
    from score_ingredients_sum [of "ingredients p"] obtain ks
      where ks: "iacc_sum (score_ingredients (ingredients p)) ks" by blast
    then have "map score_delta (ingredient_drivers p) = map (\<lambda>k. Finite (of_int k)) ks"
      using False by (simp add: iacc_sum_def ingredient_drivers_def)
    moreover from base_score_accumulate [OF ks]
    have "accumulate p (map score_delta (nutrient_drivers p)) ks = Finite q" using q by simp
    ultimately show ?thesis using h by metis
  qed
qed

theorem score_product_truncates_witness:
  "score_product fiber_only =
     Inr \<lparr>overall_score = 59, band = ''C'',
          drivers = [\<lparr>factor = ''High Fiber Content'', impact = ''positive'',
                      score_delta = Finite (39 / 4),
                      source = ''Dietary Guidelines for Americans 2020-2025''\<rparr>],
          evidence_sources = sources, confidence = ''low'', warnings = []\<rparr> \<and>
   accumulate fiber_only [Finite (39 / 4)] [] = Finite (239 / 4) \<and>
   max 0 (min 100 (trunc (239 / 4))) = 59"
proof -
  have v: "score_product fiber_only =
     Inr \<lparr>overall_score = 59, band = ''C'',
          drivers = [\<lparr>factor = ''High Fiber Content'', impact = ''positive'',
                      score_delta = Finite (39 / 4),
                      source = ''Dietary Guidelines for Americans 2020-2025''\<rparr>],
          evidence_sources = sources, confidence = ''low'', warnings = []\<rparr>"
    by code_simp
  have n: "map score_delta (nutrient_drivers fiber_only) = [Finite (39 / 4)]" by code_simp
  have i: "ingredient_drivers fiber_only = []" by code_simp
  have a: "accumulate fiber_only [Finite (39 / 4)] [] = Finite (239 / 4)" by code_simp
  from score_product_truncates [of fiber_only] obtain h q ks
    where h: "score_product fiber_only = Inr h"
      and k: "map score_delta (ingredient_drivers fiber_only) = map (\<lambda>k. Finite (of_int k)) ks"
      and q: "accumulate fiber_only (map score_delta (nutrient_drivers fiber_only)) ks = Finite q"
      and o: "overall_score h = max 0 (min 100 (trunc q))"
    by blast
  from k i have ks: "ks = []" by simp
  from q a have "Finite q = Finite (239 / 4)" unfolding n ks by (simp only:)
  then have qv: "q = 239 / 4" by (simp only: fl.inject)
  from h v have "overall_score h = 59" by auto
  with o have "max 0 (min 100 (trunc (239 / 4))) = 59" unfolding qv by (simp only:)
  with v a show ?thesis by (simp only: simp_thms)
qed

text \<open>
  C1, as the claim states it, fails: with 6.5 g of fibre the only delta is 9.75, the
  accumulated score is 59.75, which rounds to 60, and the code returns 59.
\<close>

theorem score_product_round_counterexample:
  "score_product fiber_only =
     Inr \<lparr>overall_score = 59, band = ''C'',
          drivers = [\<lparr>factor = ''High Fiber Content'', impact = ''positive'',
                      score_delta = Finite (39 / 4),
                      source = ''Dietary Guidelines for Americans 2020-2025''\<rparr>],
          evidence_sources = sources, confidence = ''low'', warnings = []\<rparr> \<and>
   fl_add (Finite 50) (fsum [Finite (39 / 4)]) = Finite (239 / 4) \<and>
   max 0 (min 100 (round (239 / 4 :: rat))) = 60"
  by code_simp

lemma band_of_iff:
  "band_of n = ''A'' \<longleftrightarrow> n \<ge> 80"
  "band_of n = ''B'' \<longleftrightarrow> 65 \<le> n \<and> n < 80"
  "band_of n = ''C'' \<longleftrightarrow> 50 \<le> n \<and> n < 65"
  "band_of n = ''D'' \<longleftrightarrow> 35 \<le> n \<and> n < 50"
  "band_of n = ''E'' \<longleftrightarrow> n < 35"
  by (auto simp add: band_of_def)

text \<open>
  C3. For every product \<open>score_product\<close> returns a HealthScore whose overall score lies
  in 0..100 and whose band is A exactly from 80, B exactly in 65..79, C exactly in
  50..64, D exactly in 35..49, and E exactly below 35.
\<close>

theorem score_bounds_and_band:
  "\<exists>h. score_product p = Inr h \<and>
     0 \<le> overall_score h \<and> overall_score h \<le> 100 \<and>
     (band h = ''A'' \<longleftrightarrow> overall_score h \<ge> 80) \<and>
     (band h = ''B'' \<longleftrightarrow> 65 \<le> overall_score h \<and> overall_score h < 80) \<and>
     (band h = ''C'' \<longleftrightarrow> 50 \<le> overall_score h \<and> overall_score h < 65) \<and>
     (band h = ''D'' \<longleftrightarrow> 35 \<le> overall_score h \<and> overall_score h < 50) \<and>
     (band h = ''E'' \<longleftrightarrow> overall_score h < 35)"
proof -
  from score_product_returns [of p] obtain h n where h: "score_product p = Inr h"
    and o: "overall_score h = max 0 (min 100 n)" and b: "band h = band_of (max 0 (min 100 n))"
    by force
  have "0 \<le> overall_score h" "overall_score h \<le> 100" unfolding o by simp_all
  moreover have "band h = band_of (overall_score h)" using o b by simp
  ultimately show ?thesis using h unfolding band_of_iff [symmetric] by (intro exI [of _ h]) simp
qed

theorem score_bounds_and_band_witness:
  "score_product fiber_only =
     Inr \<lparr>overall_score = 59, band = ''C'',
          drivers = [\<lparr>factor = ''High Fiber Content'', impact = ''positive'',
                      score_delta = Finite (39 / 4),
                      source = ''Dietary Guidelines for Americans 2020-2025''\<rparr>],
          evidence_sources = sources, confidence = ''low'', warnings = []\<rparr> \<and>
   (50 :: int) \<le> 59 \<and> (59 :: int) < 65"
proof -
  have v: "score_product fiber_only =
     Inr \<lparr>overall_score = 59, band = ''C'',
          drivers = [\<lparr>factor = ''High Fiber Content'', impact = ''positive'',
                      score_delta = Finite (39 / 4),
                      source = ''Dietary Guidelines for Americans 2020-2025''\<rparr>],
          evidence_sources = sources, confidence = ''low'', warnings = []\<rparr>"
    by code_simp
  from score_bounds_and_band [of fiber_only] obtain h
    where "score_product fiber_only = Inr h"
      and "band h = ''C'' \<longleftrightarrow> 50 \<le> overall_score h \<and> overall_score h < 65"
    by blast
  with v have "(50 :: int) \<le> 59 \<and> (59 :: int) < 65" by auto
  with v show ?thesis by simp
qed



lemma fiber_rule_parts:
  "snd (acc_parts (fiber_rule ns a)) =
     (map score_delta (fst (snd a)) @
        contribution (per100 ns ''dietary_fiber'') (\<lambda>x. fl_le (Finite 6) x)
          (\<lambda>x. py_min (Finite 10) (fl_mul x (Finite (3 / 2)))),
      snd (snd a))"
  by (cases a) (simp add: acc_parts_def fiber_rule_def per100_def contribution_def fire_def Let_def
       split: option.split)

lemma protein_rule_parts:
  "snd (acc_parts (protein_rule ns a)) =
     (map score_delta (fst (snd a)) @
        contribution (per100 ns ''protein'') (\<lambda>x. fl_le (Finite 12) x)
          (\<lambda>x. py_min (Finite 8) (fl_mul x (rnd (3 / 10)))),
      snd (snd a))"
  by (cases a) (simp add: acc_parts_def protein_rule_def per100_def contribution_def fire_def Let_def
       split: option.split)

lemma sodium_rule_parts:
  "snd (acc_parts (sodium_rule ns a)) =
     (map score_delta (fst (snd a)) @
        contribution (per100 ns ''sodium'') (\<lambda>x. fl_less (Finite 600) (fl_mul x (Finite 10)))
          (\<lambda>x. fl_neg (py_min (Finite 15)
                  (fl_mul (fl_sub (fl_mul x (Finite 10)) (Finite 600)) (rnd (1 / 100))))),
      snd (snd a) @
        (if contribution (per100 ns ''sodium'') (\<lambda>x. fl_less (Finite 600) (fl_mul x (Finite 10)))
              (\<lambda>x. fl_neg (py_min (Finite 15)
                  (fl_mul (fl_sub (fl_mul x (Finite 10)) (Finite 600)) (rnd (1 / 100))))) = []
         then []
         else [''High sodium content may contribute to elevated blood pressure'']))"
  by (cases a) (simp add: acc_parts_def sodium_rule_def per100_def contribution_def fire_def Let_def
       split: option.split)

lemma saturated_fat_rule_parts:
  "snd (acc_parts (saturated_fat_rule ns a)) =
     (map score_delta (fst (snd a)) @
        contribution (per100 ns ''saturated_fat'') (\<lambda>x. fl_less (Finite 5) x)
          (\<lambda>x. fl_neg (py_min (Finite 12) (fl_mul x (Finite (3 / 2))))),
      snd (snd a))"
  by (cases a) (simp add: acc_parts_def saturated_fat_rule_def per100_def contribution_def fire_def
       Let_def split: option.split)

lemma total_sugars_rule_parts:
  "snd (acc_parts (total_sugars_rule ns a)) =
     (map score_delta (fst (snd a)) @
        contribution (per100 ns ''total_sugars'') (\<lambda>x. fl_less (Finite 15) x)
          (\<lambda>x. fl_neg (py_min (Finite 10) (fl_mul x (Finite (1 / 2))))),
      snd (snd a))"
  by (cases a) (simp add: acc_parts_def total_sugars_rule_def per100_def contribution_def fire_def
       Let_def split: option.split)

lemma acc_parts_sel:
  "snd (acc_parts a) = (ds, w) \<Longrightarrow> map score_delta (fst (snd a)) = ds \<and> snd (snd a) = w"
  by (simp add: acc_parts_def)

text \<open>
  C2. For every nutrient dictionary the five rules act independently, each on the
  per-100g value stored under its key and each skipped when the key is missing. In the
  double arithmetic of the code the deltas of the drivers are, in order:
  min(10, fibre * 1.5) when fibre >= 6; min(8, protein * 0.3) when protein >= 12;
  -min(15, (sodium * 10 - 600) * 0.01) when sodium * 10 > 600;
  -min(12, saturated fat * 1.5) when saturated fat > 5; and -min(10, sugars * 0.5) when
  sugars > 15. The score is their sum from the left, starting at 0, and the sodium rule,
  and only it, adds a warning.
\<close>

theorem score_nutrients_rules:
  "map score_delta (fst (snd (score_nutrients ns))) =
       contribution (per100 ns ''dietary_fiber'') (\<lambda>x. fl_le (Finite 6) x)
         (\<lambda>x. py_min (Finite 10) (fl_mul x (Finite (3 / 2))))
     @ contribution (per100 ns ''protein'') (\<lambda>x. fl_le (Finite 12) x)
         (\<lambda>x. py_min (Finite 8) (fl_mul x (rnd (3 / 10))))
     @ contribution (per100 ns ''sodium'') (\<lambda>x. fl_less (Finite 600) (fl_mul x (Finite 10)))
         (\<lambda>x. fl_neg (py_min (Finite 15)
                 (fl_mul (fl_sub (fl_mul x (Finite 10)) (Finite 600)) (rnd (1 / 100)))))
     @ contribution (per100 ns ''saturated_fat'') (\<lambda>x. fl_less (Finite 5) x)
         (\<lambda>x. fl_neg (py_min (Finite 12) (fl_mul x (Finite (3 / 2)))))
     @ contribution (per100 ns ''total_sugars'') (\<lambda>x. fl_less (Finite 15) x)
         (\<lambda>x. fl_neg (py_min (Finite 10) (fl_mul x (Finite (1 / 2)))))
   \<and> fst (score_nutrients ns) = fsum (map score_delta (fst (snd (score_nutrients ns))))
   \<and> snd (snd (score_nutrients ns)) =
       (if contribution (per100 ns ''sodium'') (\<lambda>x. fl_less (Finite 600) (fl_mul x (Finite 10)))
             (\<lambda>x. fl_neg (py_min (Finite 15)
                 (fl_mul (fl_sub (fl_mul x (Finite 10)) (Finite 600)) (rnd (1 / 100))))) = []
        then []
        else [''High sodium content may contribute to elevated blood pressure''])"
proof -
  let ?a1 = "fiber_rule ns (Finite 0, [], [])"
  let ?a2 = "protein_rule ns ?a1"
  let ?a3 = "sodium_rule ns ?a2"
  let ?a4 = "saturated_fat_rule ns ?a3"
  let ?a5 = "total_sugars_rule ns ?a4"
  note p1 = acc_parts_sel [OF fiber_rule_parts [of ns "(Finite 0, [], [])"]]
  note p2 = acc_parts_sel [OF protein_rule_parts [of ns ?a1]]
  note p3 = acc_parts_sel [OF sodium_rule_parts [of ns ?a2]]
  note p4 = acc_parts_sel [OF saturated_fat_rule_parts [of ns ?a3]]
  note p5 = acc_parts_sel [OF total_sugars_rule_parts [of ns ?a4]]
  have a5: "score_nutrients ns = ?a5" by (simp add: score_nutrients_def)
  have d: "map score_delta (fst (snd ?a5)) =
       contribution (per100 ns ''dietary_fiber'') (\<lambda>x. fl_le (Finite 6) x)
         (\<lambda>x. py_min (Finite 10) (fl_mul x (Finite (3 / 2))))
     @ contribution (per100 ns ''protein'') (\<lambda>x. fl_le (Finite 12) x)
         (\<lambda>x. py_min (Finite 8) (fl_mul x (rnd (3 / 10))))
     @ contribution (per100 ns ''sodium'') (\<lambda>x. fl_less (Finite 600) (fl_mul x (Finite 10)))
         (\<lambda>x. fl_neg (py_min (Finite 15)
                 (fl_mul (fl_sub (fl_mul x (Finite 10)) (Finite 600)) (rnd (1 / 100)))))
     @ contribution (per100 ns ''saturated_fat'') (\<lambda>x. fl_less (Finite 5) x)
         (\<lambda>x. fl_neg (py_min (Finite 12) (fl_mul x (Finite (3 / 2)))))
     @ contribution (per100 ns ''total_sugars'') (\<lambda>x. fl_less (Finite 15) x)
         (\<lambda>x. fl_neg (py_min (Finite 10) (fl_mul x (Finite (1 / 2)))))"
    using p1 p2 p3 p4 p5 by simp
  have w: "snd (snd ?a5) =
       (if contribution (per100 ns ''sodium'') (\<lambda>x. fl_less (Finite 600) (fl_mul x (Finite 10)))
             (\<lambda>x. fl_neg (py_min (Finite 15)
                 (fl_mul (fl_sub (fl_mul x (Finite 10)) (Finite 600)) (rnd (1 / 100))))) = []
        then []
        else [''High sodium content may contribute to elevated blood pressure''])"
    using p1 p2 p3 p4 p5 by simp
  have s: "fst ?a5 = fsum (map score_delta (fst (snd ?a5)))"
    using score_nutrients_sum [of ns] by (simp add: acc_sum_def a5)
  show ?thesis unfolding a5 using d w s by blast
qed

theorem score_nutrients_rules_witness:
  "map score_delta (fst (snd (score_nutrients sample_nutrients))) =
     [Finite 10, Finite (2026619832316723 / 562949953421312),
      Finite (- (3602879701896397 / 36028797018963968))]
   \<and> fst (score_nutrients sample_nutrients) = Finite (27 / 2)
   \<and> snd (snd (score_nutrients sample_nutrients)) =
       [''High sodium content may contribute to elevated blood pressure'']"
proof -
  have c: "contribution (per100 sample_nutrients ''dietary_fiber'') (\<lambda>x. fl_le (Finite 6) x)
         (\<lambda>x. py_min (Finite 10) (fl_mul x (Finite (3 / 2)))) = [Finite 10]"
     "contribution (per100 sample_nutrients ''protein'') (\<lambda>x. fl_le (Finite 12) x)
         (\<lambda>x. py_min (Finite 8) (fl_mul x (rnd (3 / 10)))) = [Finite (2026619832316723 / 562949953421312)]"
     "contribution (per100 sample_nutrients ''sodium'')
         (\<lambda>x. fl_less (Finite 600) (fl_mul x (Finite 10)))
         (\<lambda>x. fl_neg (py_min (Finite 15)
                 (fl_mul (fl_sub (fl_mul x (Finite 10)) (Finite 600)) (rnd (1 / 100)))))
        = [Finite (- (3602879701896397 / 36028797018963968))]"
     "contribution (per100 sample_nutrients ''saturated_fat'') (\<lambda>x. fl_less (Finite 5) x)
         (\<lambda>x. fl_neg (py_min (Finite 12) (fl_mul x (Finite (3 / 2))))) = []"
     "contribution (per100 sample_nutrients ''total_sugars'') (\<lambda>x. fl_less (Finite 15) x)
         (\<lambda>x. fl_neg (py_min (Finite 10) (fl_mul x (Finite (1 / 2))))) = []"
    by code_simp+
  have f: "fsum [Finite 10, Finite (2026619832316723 / 562949953421312),
      Finite (- (3602879701896397 / 36028797018963968))] = Finite (27 / 2)" by code_simp
  show ?thesis using score_nutrients_rules [of sample_nutrients] unfolding c by (simp add: f)
qed

section \<open>Properties of the nutrient normaliser\<close>

lemma normalize_loop_foldl:
  "normalize_loop serving normalized es = Inr (foldl (store_step serving) normalized es)"
proof (induction es arbitrary: normalized)
  case Nil
  show ?case by simp
next
  case (Cons e es)
  show ?case
    by (simp add: Cons.IH store_step_def stored_def split: sum.split option.split)
qed

lemma normalize_nutrients_foldl:
  "normalize_nutrients raw serving = Inr (foldl (store_step serving) [] raw)"
  by (simp add: normalize_nutrients_def normalize_loop_foldl)

lemma value_match_cases:
  "(case xs of [] \<Rightarrow> Some a | d # r' \<Rightarrow> if d = c then Some (f d r') else Some a) \<noteq> None"
  by (cases xs) simp_all

lemma value_match_Some:
  assumes "dropWhile (\<lambda>c. \<not> is_digit c) s \<noteq> []"
  shows "value_match s \<noteq> None"
  unfolding value_match_def Let_def
  apply (simp only: assms if_False)
  apply (rule value_match_cases)
  done

lemma value_match_None_iff: "value_match s = None \<longleftrightarrow> \<not> has_number s"
proof (cases "dropWhile (\<lambda>c. \<not> is_digit c) s = []")
  case True
  then have "value_match s = None" by (simp add: value_match_def)
  moreover from True have "\<not> has_number s"
    by (simp add: has_number_def list_ex_iff dropWhile_eq_Nil_conv)
  ultimately show ?thesis by simp
next
  case False
  then have "value_match s \<noteq> None" by (rule value_match_Some)
  moreover from False have "has_number s"
    by (simp add: has_number_def list_ex_iff dropWhile_eq_Nil_conv)
  ultimately show ?thesis by simp
qed

lemma unit_match_None_iff:
  "unit_match s = None \<longleftrightarrow>
     \<not> list_ex (\<lambda>t. substring_in t s) [''mg'', ''g'', ''kcal'', ''cal'']"
  by (induction s) (auto simp add: starts_with_def)

lemma unit_match_range:
  "unit_match s = Some u \<Longrightarrow> u \<in> {''mg'', ''g'', ''kcal'', ''cal''}"
  by (induction s) (auto split: if_splits)

lemma stored_no_number: "\<not> has_number v \<Longrightarrow> stored serving (k, v) = None"
  by (simp add: stored_def normalize_body_def value_match_None_iff [THEN iffD2])

lemma stored_raise: "normalize_body k v serving = Inl e \<Longrightarrow> stored serving (k, v) = None"
  by (simp add: stored_def)

lemma normalize_nutrients_skip:
  "stored serving entry = None \<Longrightarrow>
   normalize_nutrients (xs @ entry # ys) serving = normalize_nutrients (xs @ ys) serving"
  by (simp add: normalize_nutrients_foldl store_step_def)

lemma map_of_store_step:
  "map_of (store_step serving n e) k =
     (if output_key (fst e) = k \<and> stored serving e \<noteq> None then stored serving e else map_of n k)"
  by (auto simp add: store_step_def update_conv' split: option.split)

lemma map_of_foldl_store_step:
  "map_of (foldl (store_step serving) n es) k = Some info \<Longrightarrow>
   map_of n k = Some info \<or>
   (\<exists>e \<in> set es. output_key (fst e) = k \<and> stored serving e = Some info)"
proof (induction es arbitrary: n)
  case Nil
  then show ?case by simp
next
  case (Cons e es)
  from Cons.IH [OF Cons.prems [simplified]]
  show ?case by (auto simp add: map_of_store_step split: if_splits)
qed

lemma map_of_foldl_no_key:
  "\<forall>e \<in> set es. output_key (fst e) \<noteq> k \<Longrightarrow>
   map_of (foldl (store_step serving) n es) k = map_of n k"
  by (induction es arbitrary: n) (simp_all add: map_of_store_step)

lemma map_of_normalize_entry:
  assumes "\<forall>e \<in> set ys. output_key (fst e) \<noteq> output_key (fst entry)"
    and "stored serving entry = Some info"
  shows "map_of (foldl (store_step serving) [] (xs @ entry # ys)) (output_key (fst entry)) =
     Some info"
  using assms by (simp add: map_of_foldl_no_key map_of_store_step)

lemma stored_unit:
  "stored serving (key, value_str) = Some info \<Longrightarrow>
   nutrient_name info = key \<and>
   nutrient_unit info \<in> {''g'', ''mg'', ''kcal'', ''cal''} \<and>
   (nutrient_unit info = ''mg'' \<longrightarrow> lower key \<in> {''sodium'', ''cholesterol''})"
  by (auto simp add: stored_def normalize_body_def Let_def
        split: option.splits if_splits sum.splits dest!: unit_match_range)

lemma gt_zero_to_double:
  assumes "gt_zero serving" and "to_double serving = Inr sv"
  shows "sv \<noteq> Finite 0"
proof (cases serving)
  case (PyInt n)
  with assms(1) have "1 \<le> \<bar>of_int n :: rat\<bar>" by simp
  then have "rnd (of_int n) \<noteq> Finite 0" by (rule rnd_not_zero)
  with assms(2) PyInt show ?thesis by (auto split: fl.splits)
next
  case (PyFloat x)
  with assms show ?thesis by auto
qed

lemma rescale_formula:
  assumes "gt_zero serving \<longrightarrow> to_double serving = Inr sv"
  shows "rescale v serving =
     Inr (if gt_zero serving then fl_mul (fl_quot v sv) (Finite 100) else v)"
proof (cases "gt_zero serving")
  case True
  with assms have t: "to_double serving = Inr sv" by simp
  from gt_zero_to_double [OF True t] have "py_truediv v sv = Inr (fl_quot v sv)"
    by (simp add: py_truediv_def)
  with True t show ?thesis by (simp add: rescale_def)
next
  case False
  then show ?thesis by (simp add: rescale_def)
qed

lemma stored_formula:
  assumes "value_match value_str = Some m"
    and "gt_zero serving \<longrightarrow> to_double serving = Inr sv"
  shows "stored serving (key, value_str) =
     Some (expected_info key m
       (case unit_match (lower value_str) of Some u \<Rightarrow> u | None \<Rightarrow> ''g'') serving sv)"
  by (simp add: stored_def normalize_body_def assms(1) rescale_formula [OF assms(2)] Let_def
        expected_info_def py_truediv_def)

lemma to_double_overflow:
  assumes "2 ^ 1024 \<le> n"
  shows "to_double (PyInt n) = Inl OverflowError"
proof -
  have "pow2 1024 = of_int (2 ^ 1024)" using pow2_nonneg_exp [of 1024] by simp
  also have "\<dots> \<le> of_int n" using assms by (simp only: of_int_le_iff)
  finally have le: "pow2 1024 \<le> of_int n" .
  with pow2_pos [of 1024] have pos: "(0 :: rat) < of_int n" by linarith
  then have "\<bar>of_int n :: rat\<bar> = of_int n" by simp
  with le have "pow2 1024 \<le> \<bar>of_int n :: rat\<bar>" by simp
  from rnd_overflow [OF this] pos have "rnd (of_int n) = PInf" by simp
  then show ?thesis by simp
qed

lemma ten_309: "(2 :: int) ^ 1024 \<le> 10 ^ 309"
  by simp

lemma normalize_body_raise:
  "value_match v = Some m \<Longrightarrow> gt_zero serving \<Longrightarrow> to_double serving = Inl e \<Longrightarrow>
   normalize_body k v serving = Inl e"
  by (simp add: normalize_body_def rescale_def Let_def)

text \<open>
  C7, as the code has it. \<open>normalize_nutrients\<close> returns a dictionary, and every
  NutrientInfo stored in it has a unit among g, mg, kcal and cal (the token cal is
  recognised and kept as it is); the unit is mg only for an entry whose lower-cased key
  is sodium or cholesterol, and every other nutrient is in g, kcal or cal.
\<close>

theorem normalize_nutrients_units:
  "\<exists>d. normalize_nutrients raw serving = Inr d \<and>
     (\<forall>k info. map_of d k = Some info \<longrightarrow>
        nutrient_unit info \<in> {''g'', ''mg'', ''kcal'', ''cal''} \<and>
        (nutrient_unit info = ''mg'' \<longrightarrow>
           lower (nutrient_name info) \<in> {''sodium'', ''cholesterol''}))"
proof -
  have "nutrient_unit info \<in> {''g'', ''mg'', ''kcal'', ''cal''} \<and>
        (nutrient_unit info = ''mg'' \<longrightarrow>
           lower (nutrient_name info) \<in> {''sodium'', ''cholesterol''})"
    if "map_of (foldl (store_step serving) [] raw) k = Some info" for k info
  proof -
    from map_of_foldl_store_step [OF that] obtain e
      where "e \<in> set raw" and "stored serving e = Some info" by auto
    then have "stored serving (fst e, snd e) = Some info" by simp
    from stored_unit [OF this] show ?thesis by simp
  qed
  then show ?thesis by (simp add: normalize_nutrients_foldl)
qed

theorem normalize_nutrients_units_witness:
  "normalize_nutrients [(''calories'', ''150 cal''), (''Sodium'', ''300 mg'')] (PyInt 100) =
     Inr [(''calories'', \<lparr>nutrient_name = ''calories'', nutrient_value = Finite 150,
                          nutrient_unit = ''cal'', per_100g = Finite 150\<rparr>),
          (''sodium'', \<lparr>nutrient_name = ''Sodium'', nutrient_value = Finite 300,
                        nutrient_unit = ''mg'', per_100g = Finite 300\<rparr>)]
   \<and> ''mg'' \<in> {''g'', ''mg'', ''kcal'', ''cal''}
   \<and> lower ''Sodium'' \<in> {''sodium'', ''cholesterol''}"
proof -
  let ?raw = "[(''calories'', ''150 cal''), (''Sodium'', ''300 mg'')]"
  let ?info = "\<lparr>nutrient_name = ''Sodium'', nutrient_value = Finite 300,
                        nutrient_unit = ''mg'', per_100g = Finite 300\<rparr>"
  have v: "normalize_nutrients ?raw (PyInt 100) =
     Inr [(''calories'', \<lparr>nutrient_name = ''calories'', nutrient_value = Finite 150,
                          nutrient_unit = ''cal'', per_100g = Finite 150\<rparr>),
          (''sodium'', ?info)]"
    by code_simp
  from normalize_nutrients_units [of ?raw "PyInt 100"] v
  have "\<forall>k info. map_of [(''calories'', \<lparr>nutrient_name = ''calories'', nutrient_value = Finite 150,
                          nutrient_unit = ''cal'', per_100g = Finite 150\<rparr>),
          (''sodium'', ?info)] k = Some info \<longrightarrow>
        nutrient_unit info \<in> {''g'', ''mg'', ''kcal'', ''cal''} \<and>
        (nutrient_unit info = ''mg'' \<longrightarrow>
           lower (nutrient_name info) \<in> {''sodium'', ''cholesterol''})"
    by auto
  from this [rule_format, of "''sodium''" ?info]
  have "''mg'' \<in> {''g'', ''mg'', ''kcal'', ''cal''} \<and> lower ''Sodium'' \<in> {''sodium'', ''cholesterol''}"
    by simp
  with v show ?thesis by (simp only: simp_thms)
qed

text \<open>
  C7, as the claim states it, fails: the value "150 cal" is stored with the unit cal,
  which is none of g, mg, kcal.
\<close>

theorem normalize_nutrients_unit_counterexample:
  "normalize_nutrients [(''calories'', ''150 cal'')] (PyInt 100) =
     Inr [(''calories'', \<lparr>nutrient_name = ''calories'', nutrient_value = Finite 150,
                          nutrient_unit = ''cal'', per_100g = Finite 150\<rparr>)]
   \<and> ''cal'' \<notin> {''g'', ''mg'', ''kcal''}"
  by code_simp

text \<open>
  C6, as the code has it. For an entry whose value string yields the number text \<open>m\<close>,
  whose key is not stored again by a later entry, and whose serving size, when positive,
  converts to a double \<open>sv\<close>, \<open>normalize_nutrients\<close> stores under the output key the value
  \<open>float(m)\<close> rescaled in double arithmetic: (value / sv) * 100 for a positive serving
  size, the value itself otherwise; when the unit found is mg and the lower-cased key is
  neither sodium nor cholesterol the rescaled value is divided by 1000 and the unit
  becomes g, otherwise unit and value stay. With serving size 50, sodium "300mg" gives
  600 in mg and total_fat "2000mg" gives 4 in g.
\<close>

theorem normalize_nutrients_rescale:
  "(value_match v = Some m \<and> (gt_zero serving \<longrightarrow> to_double serving = Inr sv) \<and>
    (\<forall>e \<in> set ys. output_key (fst e) \<noteq> output_key key) \<longrightarrow>
      (\<exists>d. normalize_nutrients (xs @ (key, v) # ys) serving = Inr d \<and>
         map_of d (output_key key) =
           Some (let u = (case unit_match (lower v) of Some t \<Rightarrow> t | None \<Rightarrow> ''g'');
                     x = py_float m;
                     r = (if gt_zero serving then fl_mul (fl_quot x sv) (Finite 100) else x)
                 in if u = ''mg'' \<and> lower key \<noteq> ''sodium'' \<and> lower key \<noteq> ''cholesterol''
                    then \<lparr>nutrient_name = key, nutrient_value = x, nutrient_unit = ''g'',
                          per_100g = fl_quot r (Finite 1000)\<rparr>
                    else \<lparr>nutrient_name = key, nutrient_value = x, nutrient_unit = u,
                          per_100g = r\<rparr>))) \<and>
   normalize_nutrients [(''sodium'', ''300mg'')] (PyInt 50) =
     Inr [(''sodium'', \<lparr>nutrient_name = ''sodium'', nutrient_value = Finite 300,
                        nutrient_unit = ''mg'', per_100g = Finite 600\<rparr>)] \<and>
   normalize_nutrients [(''total_fat'', ''2000mg'')] (PyInt 50) =
     Inr [(''total_fat'', \<lparr>nutrient_name = ''total_fat'', nutrient_value = Finite 2000,
                           nutrient_unit = ''g'', per_100g = Finite 4\<rparr>)]"
proof -
  have a: "normalize_nutrients [(''sodium'', ''300mg'')] (PyInt 50) =
     Inr [(''sodium'', \<lparr>nutrient_name = ''sodium'', nutrient_value = Finite 300,
                        nutrient_unit = ''mg'', per_100g = Finite 600\<rparr>)]"
    by code_simp
  have b: "normalize_nutrients [(''total_fat'', ''2000mg'')] (PyInt 50) =
     Inr [(''total_fat'', \<lparr>nutrient_name = ''total_fat'', nutrient_value = Finite 2000,
                           nutrient_unit = ''g'', per_100g = Finite 4\<rparr>)]"
    by code_simp
  have c: "\<exists>d. normalize_nutrients (xs @ (key, v) # ys) serving = Inr d \<and>
         map_of d (output_key key) =
           Some (expected_info key m
             (case unit_match (lower v) of Some t \<Rightarrow> t | None \<Rightarrow> ''g'') serving sv)"
    if m: "value_match v = Some m" and s: "gt_zero serving \<longrightarrow> to_double serving = Inr sv"
      and y: "\<forall>e \<in> set ys. output_key (fst e) \<noteq> output_key key"
  proof -
    from y have "\<forall>e \<in> set ys. output_key (fst e) \<noteq> output_key (fst (key, v))" by simp
    from map_of_normalize_entry [OF this stored_formula [OF m s]]
    show ?thesis by (simp add: normalize_nutrients_foldl)
  qed
  show ?thesis using a b c unfolding expected_info_def Let_def by blast
qed

theorem normalize_nutrients_rescale_witness:
  "value_match ''5.5 g'' = Some ''5.5'' \<and> gt_zero (PyInt 40) \<and>
   to_double (PyInt 40) = Inr (Finite 40) \<and>
   normalize_nutrients ([(''Sodium'', ''300mg'')] @ (''Protein'', ''5.5 g'') # [(''Fat'', ''1g'')])
       (PyInt 40) =
     Inr [(''sodium'', \<lparr>nutrient_name = ''Sodium'', nutrient_value = Finite 300,
                        nutrient_unit = ''mg'', per_100g = Finite 750\<rparr>),
          (''protein'', \<lparr>nutrient_name = ''Protein'', nutrient_value = Finite (11 / 2),
                         nutrient_unit = ''g'',
                         per_100g = Finite (7740561859543041 / 562949953421312)\<rparr>),
          (''fat'', \<lparr>nutrient_name = ''Fat'', nutrient_value = Finite 1,
                     nutrient_unit = ''g'', per_100g = Finite (5 / 2)\<rparr>)] \<and>
   fl_mul (fl_quot (py_float ''5.5'') (Finite 40)) (Finite 100) =
     Finite (7740561859543041 / 562949953421312)"
proof -
  let ?xs = "[(''Sodium'', ''300mg'')]"
  let ?ys = "[(''Fat'', ''1g'')]"
  have h1: "value_match ''5.5 g'' = Some ''5.5''" by code_simp
  have h2: "gt_zero (PyInt 40) \<longrightarrow> to_double (PyInt 40) = Inr (Finite 40)" by code_simp
  have h3: "\<forall>e \<in> set ?ys. output_key (fst e) \<noteq> output_key ''Protein''" by code_simp
  have v: "normalize_nutrients (?xs @ (''Protein'', ''5.5 g'') # ?ys) (PyInt 40) =
     Inr [(''sodium'', \<lparr>nutrient_name = ''Sodium'', nutrient_value = Finite 300,
                        nutrient_unit = ''mg'', per_100g = Finite 750\<rparr>),
          (''protein'', \<lparr>nutrient_name = ''Protein'', nutrient_value = Finite (11 / 2),
                         nutrient_unit = ''g'',
                         per_100g = Finite (7740561859543041 / 562949953421312)\<rparr>),
          (''fat'', \<lparr>nutrient_name = ''Fat'', nutrient_value = Finite 1,
                     nutrient_unit = ''g'', per_100g = Finite (5 / 2)\<rparr>)]"
    by code_simp
  have f: "fl_mul (fl_quot (py_float ''5.5'') (Finite 40)) (Finite 100) =
     Finite (7740561859543041 / 562949953421312)"
    by code_simp
  have g: "gt_zero (PyInt 40)" "to_double (PyInt 40) = Inr (Finite 40)" by code_simp+
  from normalize_nutrients_rescale
    [of "''5.5 g''" "''5.5''" "PyInt 40" "Finite 40" ?ys "''Protein''" ?xs] h1 h2 h3
  obtain d where "normalize_nutrients (?xs @ (''Protein'', ''5.5 g'') # ?ys) (PyInt 40) = Inr d"
    by blast
  with v h1 g f show ?thesis by (simp only: simp_thms)
qed

text \<open>
  C6, as the claim states it, fails for a serving size that is an int beyond the range
  of a double: the conversion in \<open>value / serving_size_g\<close> raises OverflowError, the
  \<open>except\<close> branch skips the entry, and no per-100g value is computed although the value
  string has a number and the serving size is positive.
\<close>

theorem normalize_nutrients_rescale_counterexample:
  "value_match ''300mg'' = Some ''300'' \<and> gt_zero (PyInt (10 ^ 309)) \<and>
   normalize_nutrients [(''sodium'', ''300mg'')] (PyInt (10 ^ 309)) = Inr []"
proof -
  have m: "value_match ''300mg'' = Some ''300''" by code_simp
  have g: "gt_zero (PyInt (10 ^ 309))" by simp
  have t: "to_double (PyInt (10 ^ 309)) = Inl OverflowError"
    using ten_309 by (rule to_double_overflow)
  from normalize_body_raise [OF m g t]
  have "stored (PyInt (10 ^ 309)) (''sodium'', ''300mg'') = None" by (rule stored_raise)
  then have "normalize_nutrients [(''sodium'', ''300mg'')] (PyInt (10 ^ 309)) = Inr []"
    by (simp add: normalize_nutrients_foldl store_step_def)
  with m g show ?thesis by (simp only: simp_thms)
qed

lemma map_of_normalize_nutrients_None:
  "\<forall>e \<in> set raw. output_key (fst e) \<noteq> k \<Longrightarrow>
   map_of (foldl (store_step serving) [] raw) k = None"
  by (simp add: map_of_foldl_no_key)

lemma stored_default_unit:
  assumes "has_number v" and "\<not> has_unit_token v"
    and "gt_zero serving \<longrightarrow> to_double serving = Inr sv"
  shows "\<exists>info. stored serving (k, v) = Some info \<and> nutrient_unit info = ''g''"
proof -
  from assms(1) obtain m where m: "value_match v = Some m"
    using value_match_None_iff [of v] by (cases "value_match v") auto
  from assms(2) have u: "unit_match (lower v) = None"
    by (simp add: unit_match_None_iff has_unit_token_def)
  show ?thesis by (simp add: stored_formula [OF m assms(3)] u expected_info_def Let_def)
qed

text \<open>
  C8, as the code has it. \<open>normalize_nutrients\<close> returns a dictionary for every input
  and serving size: whatever the body of the loop raises is caught. An entry whose
  value string has no digit, and likewise an entry on which the body raises, is
  skipped: the result is the one computed without that entry, so every other entry is
  still normalised, and the output key of the skipped entry is absent when no other
  entry has the same output key. An entry with a number and none of the tokens mg, g,
  kcal, cal in its lower-cased value string is stored with the unit g, when the serving
  size converts to a double and no later entry stores the same output key.
\<close>

theorem normalize_nutrients_skip_and_default:
  "(\<exists>d. normalize_nutrients raw serving = Inr d) \<and>
   (\<not> has_number v \<longrightarrow>
      normalize_nutrients (xs @ (k, v) # ys) serving = normalize_nutrients (xs @ ys) serving \<and>
      ((\<forall>e \<in> set (xs @ ys). output_key (fst e) \<noteq> output_key k) \<longrightarrow>
         (\<exists>d. normalize_nutrients (xs @ (k, v) # ys) serving = Inr d \<and>
            map_of d (output_key k) = None))) \<and>
   (normalize_body k v serving = Inl e \<longrightarrow>
      normalize_nutrients (xs @ (k, v) # ys) serving = normalize_nutrients (xs @ ys) serving) \<and>
   (has_number v \<and> \<not> has_unit_token v \<and>
    (gt_zero serving \<longrightarrow> to_double serving = Inr sv) \<and>
    (\<forall>e \<in> set ys. output_key (fst e) \<noteq> output_key k) \<longrightarrow>
      (\<exists>d info. normalize_nutrients (xs @ (k, v) # ys) serving = Inr d \<and>
         map_of d (output_key k) = Some info \<and> nutrient_unit info = ''g''))"
proof (intro conjI impI)
  show "\<exists>d. normalize_nutrients raw serving = Inr d"
    by (simp add: normalize_nutrients_foldl)
next
  assume n: "\<not> has_number v"
  then have s: "stored serving (k, v) = None" by (rule stored_no_number)
  then show eq: "normalize_nutrients (xs @ (k, v) # ys) serving =
      normalize_nutrients (xs @ ys) serving"
    by (rule normalize_nutrients_skip)
  assume "\<forall>e \<in> set (xs @ ys). output_key (fst e) \<noteq> output_key k"
  then have "map_of (foldl (store_step serving) [] (xs @ ys)) (output_key k) = None"
    by (rule map_of_normalize_nutrients_None)
  then show "\<exists>d. normalize_nutrients (xs @ (k, v) # ys) serving = Inr d \<and>
      map_of d (output_key k) = None"
    unfolding eq by (simp add: normalize_nutrients_foldl)
next
  assume "normalize_body k v serving = Inl e"
  then have "stored serving (k, v) = None" by (rule stored_raise)
  then show "normalize_nutrients (xs @ (k, v) # ys) serving =
      normalize_nutrients (xs @ ys) serving"
    by (rule normalize_nutrients_skip)
next
  assume a: "has_number v \<and> \<not> has_unit_token v \<and>
    (gt_zero serving \<longrightarrow> to_double serving = Inr sv) \<and>
    (\<forall>e \<in> set ys. output_key (fst e) \<noteq> output_key k)"
  then obtain info where i: "stored serving (k, v) = Some info" "nutrient_unit info = ''g''"
    using stored_default_unit [of v serving sv k] by blast
  from a have "\<forall>e \<in> set ys. output_key (fst e) \<noteq> output_key (fst (k, v))" by simp
  from map_of_normalize_entry [OF this i(1)] i(2)
  show "\<exists>d info. normalize_nutrients (xs @ (k, v) # ys) serving = Inr d \<and>
         map_of d (output_key k) = Some info \<and> nutrient_unit info = ''g''"
    by (simp add: normalize_nutrients_foldl)
qed

theorem normalize_nutrients_skip_and_default_witness:
  "\<not> has_number ''n/a'' \<and>
   normalize_nutrients ([(''Total Fat'', ''2 g'')] @ (''Sodium'', ''n/a'') # []) (PyInt 50) =
     normalize_nutrients ([(''Total Fat'', ''2 g'')] @ []) (PyInt 50) \<and>
   normalize_nutrients ([(''Total Fat'', ''2 g'')] @ []) (PyInt 50) =
     Inr [(''total_fat'', \<lparr>nutrient_name = ''Total Fat'', nutrient_value = Finite 2,
                           nutrient_unit = ''g'', per_100g = Finite 4\<rparr>)] \<and>
   normalize_body ''Sodium'' ''300mg'' (PyInt (10 ^ 309)) = Inl OverflowError \<and>
   normalize_nutrients ([] @ (''Sodium'', ''300mg'') # []) (PyInt (10 ^ 309)) =
     normalize_nutrients ([] @ []) (PyInt (10 ^ 309)) \<and>
   has_number ''12'' \<and> \<not> has_unit_token ''12'' \<and>
   normalize_nutrients ([] @ (''Protein'', ''12'') # []) (PyInt 50) =
     Inr [(''protein'', \<lparr>nutrient_name = ''Protein'', nutrient_value = Finite 12,
                         nutrient_unit = ''g'', per_100g = Finite 24\<rparr>)]"
proof -
  have h1: "\<not> has_number ''n/a''" by code_simp
  have m: "value_match ''300mg'' = Some ''300''" by code_simp
  have g: "gt_zero (PyInt (10 ^ 309))" by simp
  have t: "to_double (PyInt (10 ^ 309)) = Inl OverflowError"
    using ten_309 by (rule to_double_overflow)
  have h2: "normalize_body ''Sodium'' ''300mg'' (PyInt (10 ^ 309)) = Inl OverflowError"
    using m g t by (rule normalize_body_raise)
  have h3: "has_number ''12'' \<and> \<not> has_unit_token ''12''" by code_simp
  have v1: "normalize_nutrients ([(''Total Fat'', ''2 g'')] @ []) (PyInt 50) =
     Inr [(''total_fat'', \<lparr>nutrient_name = ''Total Fat'', nutrient_value = Finite 2,
                           nutrient_unit = ''g'', per_100g = Finite 4\<rparr>)]"
    by code_simp
  have v2: "normalize_nutrients ([] @ (''Protein'', ''12'') # []) (PyInt 50) =
     Inr [(''protein'', \<lparr>nutrient_name = ''Protein'', nutrient_value = Finite 12,
                         nutrient_unit = ''g'', per_100g = Finite 24\<rparr>)]"
    by code_simp
  from h1 normalize_nutrients_skip_and_default
    [of "[]" "PyInt 50" "''n/a''" "[(''Total Fat'', ''2 g'')]" "''Sodium''" "[]"]
  have s1: "normalize_nutrients ([(''Total Fat'', ''2 g'')] @ (''Sodium'', ''n/a'') # []) (PyInt 50) =
     normalize_nutrients ([(''Total Fat'', ''2 g'')] @ []) (PyInt 50)"
    by blast
  from h2 normalize_nutrients_skip_and_default
    [of "[]" "PyInt (10 ^ 309)" "''300mg''" "[]" "''Sodium''" "[]" OverflowError]
  have s2: "normalize_nutrients ([] @ (''Sodium'', ''300mg'') # []) (PyInt (10 ^ 309)) =
     normalize_nutrients ([] @ []) (PyInt (10 ^ 309))"
    by blast
  from h1 s1 v1 h2 s2 h3 v2 show ?thesis by (simp only: simp_thms)
qed

text \<open>
  C8, as the claim states it, fails on the absence of the key: the entry "Sodium" has
  no number and is skipped, yet its output key \<open>sodium\<close> is in the output, stored by the
  entry "sodium".
\<close>

theorem normalize_nutrients_key_counterexample:
  "\<not> has_number ''n/a'' \<and> output_key ''Sodium'' = ''sodium'' \<and>
   normalize_nutrients [(''Sodium'', ''n/a''), (''sodium'', ''300mg'')] (PyInt 100) =
     Inr [(''sodium'', \<lparr>nutrient_name = ''sodium'', nutrient_value = Finite 300,
                        nutrient_unit = ''mg'', per_100g = Finite 300\<rparr>)]"
  by code_simp

section \<open>Properties of the ingredient classifier\<close>

lemma classify_one_cases:
  "classify_one cl x =
     (if in_harmful x then cl\<lparr>harmful_additives := harmful_additives cl @ [x]\<rparr>
      else if in_ultra x then cl\<lparr>ultra_processed_markers := ultra_processed_markers cl @ [x]\<rparr>
      else if in_beneficial x
      then cl\<lparr>beneficial_ingredients := beneficial_ingredients cl @ [x]\<rparr>
      else cl\<lparr>other := other cl @ [x]\<rparr>)"
  by (simp add: classify_one_def Let_def in_harmful_def in_ultra_def in_beneficial_def)

lemma foldl_classify_one:
  "foldl classify_one cl xs =
     \<lparr>harmful_additives = harmful_additives cl @ filter in_harmful xs,
      ultra_processed_markers =
        ultra_processed_markers cl @ filter (\<lambda>i. \<not> in_harmful i \<and> in_ultra i) xs,
      beneficial_ingredients =
        beneficial_ingredients cl @
          filter (\<lambda>i. \<not> in_harmful i \<and> \<not> in_ultra i \<and> in_beneficial i) xs,
      other = other cl @
          filter (\<lambda>i. \<not> in_harmful i \<and> \<not> in_ultra i \<and> \<not> in_beneficial i) xs\<rparr>"
proof (induction xs arbitrary: cl)
  case Nil
  show ?case by simp
next
  case (Cons x xs)
  show ?case
    unfolding foldl_Cons Cons.IH
    by (simp add: classify_one_cases)
qed

lemma classify_ingredients_filter:
  "classify_ingredients xs =
     \<lparr>harmful_additives = filter in_harmful xs,
      ultra_processed_markers = filter (\<lambda>i. \<not> in_harmful i \<and> in_ultra i) xs,
      beneficial_ingredients =
          filter (\<lambda>i. \<not> in_harmful i \<and> \<not> in_ultra i \<and> in_beneficial i) xs,
      other = filter (\<lambda>i. \<not> in_harmful i \<and> \<not> in_ultra i \<and> \<not> in_beneficial i) xs\<rparr>"
  by (simp add: classify_ingredients_def foldl_classify_one)

lemma four_way_partition:
  "length (filter h xs) + length (filter (\<lambda>i. \<not> h i \<and> u i) xs)
     + length (filter (\<lambda>i. \<not> h i \<and> \<not> u i \<and> b i) xs)
     + length (filter (\<lambda>i. \<not> h i \<and> \<not> u i \<and> \<not> b i) xs) = length xs"
  by (induction xs) auto

lemma roundtrip_example:
  "classify_ingredients
      (normalize_ingredient_list (Some ''Sodium Nitrite, Whole Wheat Flour, Salt'')) =
     \<lparr>harmful_additives = [''sodium nitrite''], ultra_processed_markers = [],
      beneficial_ingredients = [''whole wheat flour''], other = [''salt'']\<rparr>"
  by code_simp

lemma normalize_example:
  "normalize_ingredient_list (Some ''Sodium Nitrite, Whole Wheat Flour, Salt'') =
     [''sodium nitrite'', ''whole wheat flour'', ''salt'']"
  by code_simp

text \<open>
  C5. \<open>classify_ingredients\<close> puts an ingredient under the harmful additives when it
  contains a harmful term, else under the ultra-processed markers when it contains a
  marker, else under the beneficial ingredients when it contains a beneficial term, and
  else under other, keeping the order of the input; the four lists together have as
  many entries as the input. The normalised form of "Sodium Nitrite, Whole Wheat
  Flour, Salt" is classified as the claim says.
\<close>

theorem classify_first_match_wins:
  "classify_ingredients xs =
     \<lparr>harmful_additives = filter in_harmful xs,
      ultra_processed_markers = filter (\<lambda>i. \<not> in_harmful i \<and> in_ultra i) xs,
      beneficial_ingredients =
          filter (\<lambda>i. \<not> in_harmful i \<and> \<not> in_ultra i \<and> in_beneficial i) xs,
      other = filter (\<lambda>i. \<not> in_harmful i \<and> \<not> in_ultra i \<and> \<not> in_beneficial i) xs\<rparr>
   \<and> length (harmful_additives (classify_ingredients xs))
       + length (ultra_processed_markers (classify_ingredients xs))
       + length (beneficial_ingredients (classify_ingredients xs))
       + length (other (classify_ingredients xs)) = length xs
   \<and> normalize_ingredient_list (Some ''Sodium Nitrite, Whole Wheat Flour, Salt'') =
       [''sodium nitrite'', ''whole wheat flour'', ''salt'']
   \<and> classify_ingredients
        (normalize_ingredient_list (Some ''Sodium Nitrite, Whole Wheat Flour, Salt'')) =
       \<lparr>harmful_additives = [''sodium nitrite''], ultra_processed_markers = [],
        beneficial_ingredients = [''whole wheat flour''], other = [''salt'']\<rparr>"
  using classify_ingredients_filter [of xs] roundtrip_example normalize_example
    four_way_partition [of in_harmful xs in_ultra in_beneficial]
  by simp

theorem classify_first_match_wins_witness:
  "classify_ingredients [''Red Dye 40'', ''hydrolyzed protein'', ''Oats'', ''water''] =
     \<lparr>harmful_additives = [''Red Dye 40''], ultra_processed_markers = [''hydrolyzed protein''],
      beneficial_ingredients = [''Oats''], other = [''water'']\<rparr>"
proof -
  have f: "filter in_harmful [''Red Dye 40'', ''hydrolyzed protein'', ''Oats'', ''water''] = [''Red Dye 40'']"
    "filter (\<lambda>i. \<not> in_harmful i \<and> in_ultra i) [''Red Dye 40'', ''hydrolyzed protein'', ''Oats'', ''water''] = [''hydrolyzed protein'']"
    "filter (\<lambda>i. \<not> in_harmful i \<and> \<not> in_ultra i \<and> in_beneficial i) [''Red Dye 40'', ''hydrolyzed protein'', ''Oats'', ''water''] = [''Oats'']"
    "filter (\<lambda>i. \<not> in_harmful i \<and> \<not> in_ultra i \<and> \<not> in_beneficial i) [''Red Dye 40'', ''hydrolyzed protein'', ''Oats'', ''water''] = [''water'']"
    by code_simp+
  show ?thesis
    using classify_first_match_wins [of "[''Red Dye 40'', ''hydrolyzed protein'', ''Oats'', ''water'']"]
    unfolding f by simp
qed

lemma first_match_code_order:
  "first_match [Harmful, UltraProcessed, Beneficial] i =
     (if in_harmful i then Some Harmful
      else if in_ultra i then Some UltraProcessed
      else if in_beneficial i then Some Beneficial else None)"
  by (simp add: first_match_def)

lemma first_match_code_order_iff:
  "first_match [Harmful, UltraProcessed, Beneficial] i = Some Harmful \<longleftrightarrow> in_harmful i"
  "first_match [Harmful, UltraProcessed, Beneficial] i = Some UltraProcessed \<longleftrightarrow>
     \<not> in_harmful i \<and> in_ultra i"
  "first_match [Harmful, UltraProcessed, Beneficial] i = Some Beneficial \<longleftrightarrow>
     \<not> in_harmful i \<and> \<not> in_ultra i \<and> in_beneficial i"
  "first_match [Harmful, UltraProcessed, Beneficial] i = None \<longleftrightarrow>
     \<not> in_harmful i \<and> \<not> in_ultra i \<and> \<not> in_beneficial i"
  by (simp_all add: first_match_code_order)

lemma classify_in_code_order:
  "classify_ingredients xs = classify_in_order [Harmful, UltraProcessed, Beneficial] xs"
  by (simp add: classify_ingredients_filter classify_in_order_def first_match_code_order_iff)

lemma category_UNIV: "(UNIV :: category set) = {Harmful, UltraProcessed, Beneficial}"
  using category.exhaust by auto

lemma first_match_unique:
  assumes "at_most_one_set i" and "set order = UNIV"
  shows "first_match order i = Some c \<longleftrightarrow> in_category c i"
proof
  assume "first_match order i = Some c"
  then show "in_category c i" by (auto simp add: first_match_def find_Some_iff)
next
  assume c: "in_category c i"
  have uniq: "\<And>d. in_category d i \<Longrightarrow> d = c"
  proof -
    fix d assume "in_category d i"
    with c assms(1) show "d = c"
      by (cases c; cases d) (auto simp add: at_most_one_set_def)
  qed
  from c assms(2) have "find (\<lambda>c. in_category c i) order \<noteq> None"
    by (auto simp add: find_None_iff)
  then obtain d where d: "find (\<lambda>c. in_category c i) order = Some d" by blast
  then have "in_category d i" by (auto simp add: find_Some_iff)
  with uniq d show "first_match order i = Some c" by (simp add: first_match_def)
qed

lemma first_match_order_irrelevant:
  assumes "at_most_one_set i" and "set order = UNIV"
  shows "first_match order i = first_match [Harmful, UltraProcessed, Beneficial] i"
proof (cases "first_match [Harmful, UltraProcessed, Beneficial] i")
  case None
  then have n: "\<not> in_harmful i" "\<not> in_ultra i" "\<not> in_beneficial i"
    by (simp_all add: first_match_code_order split: if_splits)
  have "\<not> in_category c i" for c
    using n by (cases c) simp_all
  then show ?thesis unfolding None by (simp add: first_match_def find_None_iff)
next
  case (Some c)
  have u: "set [Harmful, UltraProcessed, Beneficial] = UNIV" by (simp add: category_UNIV)
  from Some first_match_unique [OF assms(1) u] have "in_category c i" by simp
  with first_match_unique [OF assms] Some show ?thesis by simp
qed

lemma term_sets_disjoint:
  "set HARMFUL_ADDITIVES \<inter> set ULTRA_PROCESSED_MARKERS = {}"
  "set HARMFUL_ADDITIVES \<inter> set BENEFICIAL_INGREDIENTS = {}"
  "set ULTRA_PROCESSED_MARKERS \<inter> set BENEFICIAL_INGREDIENTS = {}"
  by code_simp+

text \<open>
  C4, as the code has it. No term belongs to two of the three curated sets. For a list
  in which every ingredient contains terms of at most one set, the classification is
  the same whatever the order in which the three sets are tested.
\<close>

theorem classify_order_irrelevant:
  "set HARMFUL_ADDITIVES \<inter> set ULTRA_PROCESSED_MARKERS = {} \<and>
   set HARMFUL_ADDITIVES \<inter> set BENEFICIAL_INGREDIENTS = {} \<and>
   set ULTRA_PROCESSED_MARKERS \<inter> set BENEFICIAL_INGREDIENTS = {} \<and>
   ((\<forall>i \<in> set xs. at_most_one_set i) \<and> set order = UNIV \<longrightarrow>
      classify_ingredients xs = classify_in_order order xs)"
proof -
  have "classify_ingredients xs = classify_in_order order xs"
    if a: "\<forall>i \<in> set xs. at_most_one_set i" and o: "set order = UNIV"
  proof -
    have "first_match order i = first_match [Harmful, UltraProcessed, Beneficial] i"
      if "i \<in> set xs" for i
      using that a o first_match_order_irrelevant by blast
    then have "classify_in_order order xs =
        classify_in_order [Harmful, UltraProcessed, Beneficial] xs"
      unfolding classify_in_order_def by (simp cong: filter_cong)
    then show ?thesis by (simp add: classify_in_code_order)
  qed
  with term_sets_disjoint show ?thesis by blast
qed

theorem classify_order_irrelevant_witness:
  "classify_ingredients [''Red Dye 40'', ''Oats'', ''water''] =
     classify_in_order [Beneficial, UltraProcessed, Harmful] [''Red Dye 40'', ''Oats'', ''water''] \<and>
   classify_in_order [Beneficial, UltraProcessed, Harmful] [''Red Dye 40'', ''Oats'', ''water''] =
     \<lparr>harmful_additives = [''Red Dye 40''], ultra_processed_markers = [],
      beneficial_ingredients = [''Oats''], other = [''water'']\<rparr>"
proof -
  have h1: "\<forall>i \<in> set [''Red Dye 40'', ''Oats'', ''water'']. at_most_one_set i" by code_simp
  have h2: "set [Beneficial, UltraProcessed, Harmful] = UNIV" by (auto simp add: category_UNIV)
  have v: "classify_in_order [Beneficial, UltraProcessed, Harmful] [''Red Dye 40'', ''Oats'', ''water''] =
     \<lparr>harmful_additives = [''Red Dye 40''], ultra_processed_markers = [],
      beneficial_ingredients = [''Oats''], other = [''water'']\<rparr>"
    by code_simp
  show ?thesis
    using h1 h2 v
      classify_order_irrelevant [of "[''Red Dye 40'', ''Oats'', ''water'']"
        "[Beneficial, UltraProcessed, Harmful]"]
    by simp
qed

text \<open>
  C4, as the claim states it, fails: "hydrolyzed protein" contains the ultra-processed
  marker "hydrolyzed protein" and the beneficial term "protein". The code files it
  under the ultra-processed markers; testing the beneficial set first files it under
  the beneficial ingredients.
\<close>

theorem classify_overlap_counterexample:
  "in_ultra ''hydrolyzed protein'' \<and> in_beneficial ''hydrolyzed protein'' \<and>
   classify_ingredients [''hydrolyzed protein''] =
     \<lparr>harmful_additives = [], ultra_processed_markers = [''hydrolyzed protein''],
      beneficial_ingredients = [], other = []\<rparr> \<and>
   classify_in_order [Beneficial, UltraProcessed, Harmful] [''hydrolyzed protein''] =
     \<lparr>harmful_additives = [], ultra_processed_markers = [],
      beneficial_ingredients = [''hydrolyzed protein''], other = []\<rparr>"
  by code_simp

section \<open>Properties of the ingredient normaliser\<close>

lemma normalize_ingredient_list_empty:
  "normalize_ingredient_list None = []" "normalize_ingredient_list (Some []) = []"
  by (simp_all add: normalize_ingredient_list_def)

text \<open>
  C9. \<open>normalize_ingredient_list\<close> splits at every comma and semicolon before it removes
  the parenthetical groups from the pieces. A group that holds a separator is cut in
  two by the split, neither half matches the pattern of a group, and its content stays
  in the output: "Enriched Flour (Wheat Flour, Niacin), Salt" gives the three tokens
  "enriched flour (wheat flour", "niacin)" and "salt".
\<close>

theorem normalize_ingredient_list_paren_split:
  "normalize_ingredient_list (Some ''Enriched Flour (Wheat Flour, Niacin), Salt'') =
     [''enriched flour (wheat flour'', ''niacin)'', ''salt'']"
  by code_simp

section \<open>Values of the double arithmetic\<close>

text \<open>
  \<open>float('2.7')\<close> is the double nearest to 2.7; \<open>(2.7 / 18) * 100\<close> is 15.000000000000002
  and \<open>12 * 0.3\<close> is 3.5999999999999996.
\<close>

lemma double_values:
  "py_float ''2.7'' = Finite (3039929748475085 / 1125899906842624)"
  "fl_mul (fl_quot (py_float ''2.7'') (Finite 18)) (Finite 100) =
     Finite (8444249301319681 / 562949953421312)"
  "fl_mul (Finite 12) (rnd (3 / 10)) = Finite (2026619832316723 / 562949953421312)"
  by code_simp+

text \<open>
  With the double 6.666666666666666 of fibre the product with 1.5 rounds to 10.0 and the
  score is 60; with protein "7g" at a serving size of 30 the delta is 6.999999999999999
  and the score is 57.
\<close>

lemma score_product_double_values:
  "map_sum id overall_score
     (score_product \<lparr>barcode = None, name = [], brand = [], ingredients = [],
        nutrients = [(''dietary_fiber'', \<lparr>nutrient_name = ''dietary_fiber'',
                       nutrient_value = Finite (7505999378950826 / 1125899906842624),
                       nutrient_unit = ''g'',
                       per_100g = Finite (7505999378950826 / 1125899906842624)\<rparr>)],
        serving_size_g = None, categories = []\<rparr>) = Inr 60"
  "normalize_nutrients [(''protein'', ''7g'')] (PyInt 30) =
     Inr [(''protein'', \<lparr>nutrient_name = ''protein'', nutrient_value = Finite 7,
                         nutrient_unit = ''g'',
                         per_100g = Finite (6567749456581973 / 281474976710656)\<rparr>)]"
  "map_sum id (\<lambda>h. (overall_score h, map score_delta (drivers h)))
     (score_product \<lparr>barcode = None, name = [], brand = [], ingredients = [],
        nutrients = [(''protein'', \<lparr>nutrient_name = ''protein'', nutrient_value = Finite 7,
                         nutrient_unit = ''g'',
                         per_100g = Finite (6567749456581973 / 281474976710656)\<rparr>)],
        serving_size_g = Some (PyInt 30), categories = []\<rparr>) =
     Inr (57, [Finite (7881299347898367 / 1125899906842624)])"
  by code_simp+

end
